theory Spec2Isabelle
  imports
    Main
    "HOL-Library.Char_ord"
    "HOL-Library.List_Lexorder"
    "HOL-Library.Sublist"
begin

section \<open>The persisted store\<close>

text \<open>
  The program (\<^verbatim>\<open>ap3.py\<close>, the last of the three iterations; \<^verbatim>\<open>ap2.py\<close>
  has the same lifecycle functions) keeps three SQLite tables, created by
  \<^verbatim>\<open>init_db\<close>:
  \<^verbatim>\<open>customers(id, name, phone, language)\<close>,
  \<^verbatim>\<open>loans(id, customer_id, emi_amount, due_date, status)\<close> and
  \<^verbatim>\<open>call_logs(id, loan_id, event, detail, ts)\<close>.
  A table is modelled as the list of its rows in rowid order, which is the order
  in which SQLite scans a rowid table that has no other index. The column
  \<^verbatim>\<open>ts\<close> (filled by the default \<^verbatim>\<open>CURRENT_TIMESTAMP\<close>) is read by
  the analytics panel only and is left out.

  The column \<^verbatim>\<open>status\<close> is TEXT; the program only ever writes the three
  values \<^verbatim>\<open>'due'\<close> (the column default), \<^verbatim>\<open>'paid'\<close> and
  \<^verbatim>\<open>'rescheduled'\<close>.
\<close>

datatype status = Due | Paid | Rescheduled

record customer =
  c_id :: int
  name :: string
  phone :: string
  language :: string

record loan =
  l_id :: int
  customer_id :: int
  emi_amount :: int
  due_date :: string
  status :: status

record call_log =
  e_id :: int
  loan_id :: int
  event :: string
  detail :: string

record db =
  customers :: "customer list"
  loans :: "loan list"
  call_logs :: "call_log list"

definition empty_db :: db where
  "empty_db = \<lparr>customers = [], loans = [], call_logs = []\<rparr>"

text \<open>
  A Python \<^verbatim>\<open>int\<close> is unbounded, an SQLite INTEGER has 64 bits. The
  \<^verbatim>\<open>sqlite3\<close> module binds an \<^verbatim>\<open>int\<close> to a \<^verbatim>\<open>?\<close> of a statement only when
  it fits; otherwise \<^verbatim>\<open>cur.execute\<close> raises \<^verbatim>\<open>OverflowError\<close> before the
  statement runs, so that nothing is read or written.
\<close>

definition sqlite_int :: "int \<Rightarrow> bool" where
  "sqlite_int i = (- 9223372036854775808 \<le> i \<and> i \<le> 9223372036854775807)"

text \<open>
  \<^verbatim>\<open>INTEGER PRIMARY KEY AUTOINCREMENT\<close>: a new row gets an id one above the
  largest id of the table (rows are never deleted), and 1 in an empty table.
  (Ids start at 1 and grow by one, so no run fills the 64 bits of a rowid.)
\<close>

definition next_id :: "int list \<Rightarrow> int" where
  "next_id ids = fold max ids 0 + 1"

text \<open>
  \<^verbatim>\<open>execute("INSERT INTO call_logs (loan_id, event, detail) VALUES (?, ?, ?)", ...)\<close>
\<close>

definition insert_call_log :: "int \<Rightarrow> string \<Rightarrow> string \<Rightarrow> db \<Rightarrow> db" where
  "insert_call_log lid ev det d =
     d\<lparr>call_logs := call_logs d @
        [\<lparr>e_id = next_id (map e_id (call_logs d)), loan_id = lid, event = ev, detail = det\<rparr>]\<rparr>"

text \<open>\<^verbatim>\<open>execute("UPDATE loans SET status = 'paid' WHERE id = ?", (loan_id,))\<close>\<close>

definition update_status_paid :: "int \<Rightarrow> db \<Rightarrow> db" where
  "update_status_paid lid d =
     d\<lparr>loans := map (\<lambda>l. if l_id l = lid then l\<lparr>status := Paid\<rparr> else l) (loans d)\<rparr>"

text \<open>
  \<^verbatim>\<open>execute("UPDATE loans SET status = 'rescheduled', due_date = ? WHERE id = ?", ...)\<close>
\<close>

definition update_rescheduled :: "string \<Rightarrow> int \<Rightarrow> db \<Rightarrow> db" where
  "update_rescheduled new_date lid d =
     d\<lparr>loans := map (\<lambda>l. if l_id l = lid then l\<lparr>status := Rescheduled, due_date := new_date\<rparr> else l)
                   (loans d)\<rparr>"

text \<open>
  The dictionaries the core functions return, as association lists:
  \<^verbatim>\<open>{"status": "ok"}\<close> is \<open>[(''status'', ''ok'')]\<close>.
\<close>

type_synonym result = "(string \<times> string) list"

section \<open>Library functions the program calls\<close>

subsection \<open>Exceptions\<close>

text \<open>
  The exceptions a core function can let escape: \<^verbatim>\<open>KeyError\<close> (a dictionary
  lookup or a format field), \<^verbatim>\<open>ValueError\<close> (a malformed format string or
  date), \<^verbatim>\<open>OverflowError\<close> (date arithmetic, or an \<^verbatim>\<open>int\<close> too large for an
  SQLite parameter) and whatever the Twilio client
  raises (\<open>ChannelError\<close>). The \<^verbatim>\<open>{"error": "Loan not found"}\<close> dictionary
  is an ordinary return value, not an exception.
\<close>

datatype exn = KeyError string | ValueError | OverflowError | ChannelError string

subsection \<open>Decimal rendering: \<^verbatim>\<open>str(int)\<close>, \<^verbatim>\<open>%02d\<close>, \<^verbatim>\<open>%04d\<close>\<close>

definition dig :: "nat \<Rightarrow> char" where
  "dig n = ''0123456789'' ! n"

fun str_nat :: "nat \<Rightarrow> string" where
  "str_nat n = (if n < 10 then [dig n] else str_nat (n div 10) @ [dig (n mod 10)])"

declare str_nat.simps [simp del]

definition str_int :: "int \<Rightarrow> string" where
  "str_int i = (if i < 0 then CHR ''-'' # str_nat (nat (- i)) else str_nat (nat i))"

definition zero_pad :: "nat \<Rightarrow> int \<Rightarrow> string" where
  "zero_pad w i =
     (if i < 0
      then CHR ''-'' # replicate (w - 1 - length (str_nat (nat (- i)))) (CHR ''0'') @ str_nat (nat (- i))
      else replicate (w - length (str_nat (nat i))) (CHR ''0'') @ str_nat (nat i))"

definition digit_val :: "char \<Rightarrow> nat option" where
  "digit_val c = (if c \<in> set ''0123456789'' then Some (of_char c - 48) else None)"

fun parse_digits :: "nat \<Rightarrow> string \<Rightarrow> nat option" where
  "parse_digits acc [] = Some acc"
| "parse_digits acc (c # cs) =
     (case digit_val c of None \<Rightarrow> None | Some v \<Rightarrow> parse_digits (10 * acc + v) cs)"

subsection \<open>\<^verbatim>\<open>datetime.date\<close>\<close>

text \<open>
  Python's proleptic Gregorian \<^verbatim>\<open>date\<close>, after the pure-Python \<^verbatim>\<open>datetime\<close>
  module: a date is a (year, month, day) triple checked on construction, the
  ordinal of 0001-01-01 is 1, and \<^verbatim>\<open>date + timedelta(days=n)\<close> goes through
  the ordinal.
\<close>

record date =
  year :: int
  month :: int
  day :: int

definition MINYEAR :: int where "MINYEAR = 1"
definition MAXYEAR :: int where "MAXYEAR = 9999"
definition MAXORDINAL :: int where "MAXORDINAL = 3652059"

definition DAYS_IN_MONTH :: "int list" where
  "DAYS_IN_MONTH = [-1, 31, 28, 31, 30, 31, 30, 31, 31, 30, 31, 30, 31]"

definition DAYS_BEFORE_MONTH :: "int list" where
  "DAYS_BEFORE_MONTH = [-1, 0, 31, 59, 90, 120, 151, 181, 212, 243, 273, 304, 334]"

definition is_leap :: "int \<Rightarrow> bool" where
  "is_leap y = (y mod 4 = 0 \<and> (y mod 100 \<noteq> 0 \<or> y mod 400 = 0))"

definition days_before_year :: "int \<Rightarrow> int" where
  "days_before_year yr = (let y = yr - 1 in y * 365 + y div 4 - y div 100 + y div 400)"

definition days_in_month :: "int \<Rightarrow> int \<Rightarrow> int" where
  "days_in_month y m = (if m = 2 \<and> is_leap y then 29 else DAYS_IN_MONTH ! nat m)"

definition days_before_month :: "int \<Rightarrow> int \<Rightarrow> int" where
  "days_before_month y m = DAYS_BEFORE_MONTH ! nat m + (if m > 2 \<and> is_leap y then 1 else 0)"

definition ymd2ord :: "int \<Rightarrow> int \<Rightarrow> int \<Rightarrow> int" where
  "ymd2ord y m d = days_before_year y + days_before_month y m + d"

definition ord2ymd :: "int \<Rightarrow> date" where
  "ord2ymd n0 =
    (let n = n0 - 1;
         n400 = n div 146097; n = n mod 146097;
         yr = n400 * 400 + 1;
         n100 = n div 36524; n = n mod 36524;
         n4 = n div 1461; n = n mod 1461;
         n1 = n div 365; n = n mod 365;
         yr = yr + n100 * 100 + n4 * 4 + n1
     in if n1 = 4 \<or> n100 = 4 then \<lparr>year = yr - 1, month = 12, day = 31\<rparr>
        else
          let leapyear = (n1 = 3 \<and> (n4 \<noteq> 24 \<or> n100 = 3));
              mo = (n + 50) div 32;
              preceding = DAYS_BEFORE_MONTH ! nat mo + (if mo > 2 \<and> leapyear then 1 else 0)
          in if preceding > n
             then let mo = mo - 1;
                      preceding = preceding - (DAYS_IN_MONTH ! nat mo + (if mo = 2 \<and> leapyear then 1 else 0))
                  in \<lparr>year = yr, month = mo, day = n - preceding + 1\<rparr>
             else \<lparr>year = yr, month = mo, day = n - preceding + 1\<rparr>)"

definition valid_date :: "date \<Rightarrow> bool" where
  "valid_date d =
     (MINYEAR \<le> year d \<and> year d \<le> MAXYEAR \<and> 1 \<le> month d \<and> month d \<le> 12 \<and>
      1 \<le> day d \<and> day d \<le> days_in_month (year d) (month d))"

text \<open>The constructor \<^verbatim>\<open>date(y, m, d)\<close>, which raises \<^verbatim>\<open>ValueError\<close> out of range.\<close>

definition mk_date :: "int \<Rightarrow> int \<Rightarrow> int \<Rightarrow> exn + date" where
  "mk_date y m d =
     (if \<not> (MINYEAR \<le> y \<and> y \<le> MAXYEAR) then Inl ValueError
      else if \<not> (1 \<le> m \<and> m \<le> 12) then Inl ValueError
      else if \<not> (1 \<le> d \<and> d \<le> days_in_month y m) then Inl ValueError
      else Inr \<lparr>year = y, month = m, day = d\<rparr>)"

definition toordinal :: "date \<Rightarrow> int" where
  "toordinal d = ymd2ord (year d) (month d) (day d)"

text \<open>
  \<^verbatim>\<open>d + timedelta(days=n)\<close>: the \<^verbatim>\<open>timedelta\<close> constructor refuses more
  than 999999999 days, and the sum must be an ordinal between 1 and
  \<^verbatim>\<open>_MAXORDINAL\<close>.
\<close>

definition date_add :: "date \<Rightarrow> int \<Rightarrow> exn + date" where
  "date_add d days =
     (if \<bar>days\<bar> > 999999999 then Inl OverflowError
      else let n = toordinal d + days
           in if 0 < n \<and> n \<le> MAXORDINAL then Inr (ord2ymd n) else Inl OverflowError)"

text \<open>\<^verbatim>\<open>date.isoformat()\<close>, that is \<^verbatim>\<open>"%04d-%02d-%02d" % (y, m, d)\<close>.\<close>

definition isoformat :: "date \<Rightarrow> string" where
  "isoformat d = zero_pad 4 (year d) @ ''-'' @ zero_pad 2 (month d) @ ''-'' @ zero_pad 2 (day d)"

text \<open>
  \<^verbatim>\<open>datetime.fromisoformat(s)\<close> followed by \<^verbatim>\<open>.date()\<close>, on the format the
  program stores: every \<^verbatim>\<open>due_date\<close> in the table was written by
  \<^verbatim>\<open>date.isoformat()\<close>, ten characters \<^verbatim>\<open>YYYY-MM-DD\<close>. Any other string is
  modelled as a \<^verbatim>\<open>ValueError\<close> (recent Pythons accept further ISO 8601
  forms, which this program never writes).
\<close>

definition fromisoformat :: "string \<Rightarrow> exn + date" where
  "fromisoformat s =
     (if length s \<noteq> 10 \<or> s ! 4 \<noteq> CHR ''-'' \<or> s ! 7 \<noteq> CHR ''-'' then Inl ValueError
      else case (parse_digits 0 (take 4 s), parse_digits 0 (take 2 (drop 5 s)),
                 parse_digits 0 (take 2 (drop 8 s))) of
             (Some y, Some m, Some d) \<Rightarrow> mk_date (int y) (int m) (int d)
           | _ \<Rightarrow> Inl ValueError)"

text \<open>Python compares dates as (year, month, day) triples.\<close>

definition date_le :: "date \<Rightarrow> date \<Rightarrow> bool" where
  "date_le a b =
     (year a < year b \<or>
      (year a = year b \<and> (month a < month b \<or> (month a = month b \<and> day a \<le> day b))))"

text \<open>
  \<^verbatim>\<open>strftime('%B %d, %Y')\<close> in the C locale: the English month name, the day
  on two digits, the year (on four digits; for years below 1000 the padding of
  \<^verbatim>\<open>%Y\<close> depends on the C library).
\<close>

definition MONTH_NAMES :: "string list" where
  "MONTH_NAMES = [''January'', ''February'', ''March'', ''April'', ''May'', ''June'', ''July'',
     ''August'', ''September'', ''October'', ''November'', ''December'']"

definition strftime_B_d_Y :: "date \<Rightarrow> string" where
  "strftime_B_d_Y d =
     MONTH_NAMES ! nat (month d - 1) @ '' '' @ zero_pad 2 (day d) @ '', '' @ zero_pad 4 (year d)"

subsection \<open>\<^verbatim>\<open>str.format\<close> with named fields\<close>

text \<open>
  \<^verbatim>\<open>template.format(**kwargs)\<close> for the templates of this program, whose
  replacement fields are plain names (\<^verbatim>\<open>{name}\<close>, \<^verbatim>\<open>{amount}\<close>,
  \<^verbatim>\<open>{due_date}\<close>); doubled braces, conversions and format specs do not occur
  in them. The second argument is the field being read, if any. A field that is
  not among the keyword arguments raises \<^verbatim>\<open>KeyError\<close>, an unbalanced brace
  \<^verbatim>\<open>ValueError\<close>; keyword arguments that the template does not use are
  ignored.
\<close>

fun format_scan :: "(string \<times> string) list \<Rightarrow> string option \<Rightarrow> string \<Rightarrow> exn + string" where
  "format_scan kw None [] = Inr []"
| "format_scan kw (Some f) [] = Inl ValueError"
| "format_scan kw None (c # cs) =
     (if c = CHR ''{'' then format_scan kw (Some []) cs
      else if c = CHR ''}'' then Inl ValueError
      else map_sum id ((#) c) (format_scan kw None cs))"
| "format_scan kw (Some f) (c # cs) =
     (if c = CHR ''}''
      then (case map_of kw f of
              None \<Rightarrow> Inl (KeyError f)
            | Some v \<Rightarrow> map_sum id ((@) v) (format_scan kw None cs))
      else format_scan kw (Some (f @ [c])) cs)"

definition format_str :: "string \<Rightarrow> (string \<times> string) list \<Rightarrow> exn + string" where
  "format_str template kw = format_scan kw None template"

section \<open>Message templates: \<^verbatim>\<open>LANG_MSGS\<close> and \<^verbatim>\<open>get_msg\<close>\<close>

text \<open>
  \<^verbatim>\<open>LANG_MSGS\<close> maps a language code to a dictionary with the four keys
  \<^verbatim>\<open>reminder\<close>, \<^verbatim>\<open>pre_due_reminder\<close>, \<^verbatim>\<open>link_sent\<close> and
  \<^verbatim>\<open>rescheduled\<close>. The English entry is transcribed as it stands. The texts of
  the 27 other languages are not ASCII; they enter as the parameter \<open>native\<close>
  (language code and key to template text), so that the keys of the table are the
  source's and nothing is assumed about those texts.
\<close>

definition EN_MSGS :: "(string \<times> string) list" where
  "EN_MSGS =
    [(''reminder'', ''Hello {name}. This is a reminder from TVS Credit. Your EMI of Rs {amount} is due today. Press 1 to pay now, or press 2 to request a reschedule.''),
     (''pre_due_reminder'', ''Hello {name}. A friendly reminder from TVS Credit. Your EMI of Rs {amount} is due on {due_date}. Thank you.''),
     (''link_sent'', ''We have sent a payment link to your phone. Thank you.''),
     (''rescheduled'', ''Your request has been noted. An agent will call you back shortly to confirm a new date. Thank you.'')]"

definition MSG_KEYS :: "string list" where
  "MSG_KEYS = [''reminder'', ''pre_due_reminder'', ''link_sent'', ''rescheduled'']"

definition NATIVE_LANGS :: "string list" where
  "NATIVE_LANGS =
    [''hi'', ''bn'', ''ta'', ''te'', ''mr'', ''gu'', ''kn'', ''ml'', ''pa'', ''or'', ''ur'',
     ''es'', ''fr'', ''de'', ''pt'', ''ru'', ''zh'', ''ja'', ''ar'', ''id'', ''it'', ''tr'',
     ''nl'', ''ko'', ''pl'', ''vi'', ''fil'']"

definition LANG_MSGS :: "(string \<Rightarrow> string \<Rightarrow> string) \<Rightarrow> (string \<times> (string \<times> string) list) list" where
  "LANG_MSGS native =
     (''en'', EN_MSGS) # map (\<lambda>l. (l, map (\<lambda>k. (k, native l k)) MSG_KEYS)) NATIVE_LANGS"

text \<open>
  \<^verbatim>\<open>
  def get_msg(lang, key, **kwargs):
      return LANG_MSGS.get(lang, LANG_MSGS["en"])[key].format(**kwargs)
  \<close>
\<close>

definition get_msg ::
  "(string \<Rightarrow> string \<Rightarrow> string) \<Rightarrow> string \<Rightarrow> string \<Rightarrow> (string \<times> string) list \<Rightarrow> exn + string" where
  "get_msg native lang key kwargs =
     (let msgs = (case map_of (LANG_MSGS native) lang of Some m \<Rightarrow> m | None \<Rightarrow> EN_MSGS)
      in case map_of msgs key of
           None \<Rightarrow> Inl (KeyError key)
         | Some template \<Rightarrow> format_str template kwargs)"

section \<open>The notification channel\<close>

text \<open>
  \<^verbatim>\<open>USE_TWILIO\<close> and \<^verbatim>\<open>tw_client\<close> are fixed when the module is loaded: the
  client exists exactly when the three credentials are set. The client's two
  calls are outside the program; each is a parameter that returns the provider's
  identifier or raises.
\<close>

record twilio =
  TWILIO_NUMBER :: string
  calls_create :: "string \<Rightarrow> string \<Rightarrow> string \<Rightarrow> exn + string"
  messages_create :: "string \<Rightarrow> string \<Rightarrow> string \<Rightarrow> exn + string"

record env =
  native_text :: "string \<Rightarrow> string \<Rightarrow> string"
  tw_client :: "twilio option"

definition twiml :: "string \<Rightarrow> string" where
  "twiml text =
     ''<Response><Gather input='dtmf' timeout='5' numDigits='1'><Say language='en-IN'>'' @ text @
     ''</Say></Gather></Response>''"

section \<open>Core functions\<close>

text \<open>
  \<^verbatim>\<open>SELECT ... FROM loans l JOIN customers c ON l.customer_id = c.id WHERE l.id = ?\<close>
\<close>

definition select_loan_join :: "int \<Rightarrow> db \<Rightarrow> (loan \<times> customer) list" where
  "select_loan_join lid d =
     [(l, c). l \<leftarrow> loans d, l_id l = lid, c \<leftarrow> customers d, c_id c = customer_id l]"

text \<open>
  \<^verbatim>\<open>
  def place_call(loan_id, message_key="reminder"):
      loan = query_all("SELECT l.id, l.emi_amount, l.due_date, c.name, c.phone, c.language
                        FROM loans l JOIN customers c ON l.customer_id = c.id WHERE l.id = ?", (loan_id,))
      if not loan: return {"error": "Loan not found"}
      loan_info = loan[0]
      formatted_due_date = datetime.fromisoformat(loan_info['due_date']).strftime('%B %d, %Y')
      text = get_msg(loan_info['language'], message_key, name=loan_info['name'],
                     amount=loan_info['emi_amount'], due_date=formatted_due_date)
      execute("INSERT INTO call_logs ...", (loan_id, "call_initiated", f"to {loan_info['phone']}"))
      if USE_TWILIO and tw_client:
          twiml = f"<Response>...<Say language='en-IN'>{text}</Say>...</Response>"
          call = tw_client.calls.create(to=loan_info['phone'], from_=TWILIO_NUMBER, twiml=twiml)
          execute("INSERT INTO call_logs ...", (loan_id, "twilio_call", call.sid))
          return {"status": "twilio_call_placed", "sid": call.sid}
      else:
          execute("INSERT INTO call_logs ...", (loan_id, "mock_call", text))
          return {"status": "mock_call_logged", "text": text}
  \<close>
  The result is the store as the call leaves it (every \<^verbatim>\<open>execute\<close> commits)
  and either the returned dictionary or the exception that escaped. The first
  statement of each core function binds \<^verbatim>\<open>loan_id\<close>, so an id outside the 64
  bits raises there.
\<close>

definition place_call :: "env \<Rightarrow> int \<Rightarrow> string \<Rightarrow> db \<Rightarrow> db \<times> (exn + result)" where
  "place_call e lid message_key d =
     (if \<not> sqlite_int lid then (d, Inl OverflowError) else
      case select_loan_join lid d of
        [] \<Rightarrow> (d, Inr [(''error'', ''Loan not found'')])
      | (l, c) # _ \<Rightarrow>
         (case fromisoformat (due_date l) of
            Inl x \<Rightarrow> (d, Inl x)
          | Inr dt \<Rightarrow>
             (case get_msg (native_text e) (language c) message_key
                     [(''name'', name c), (''amount'', str_int (emi_amount l)),
                      (''due_date'', strftime_B_d_Y dt)] of
                Inl x \<Rightarrow> (d, Inl x)
              | Inr text \<Rightarrow>
                 (let d1 = insert_call_log lid ''call_initiated'' (''to '' @ phone c) d
                  in case tw_client e of
                       Some tw \<Rightarrow>
                        (case calls_create tw (phone c) (TWILIO_NUMBER tw) (twiml text) of
                           Inl x \<Rightarrow> (d1, Inl x)
                         | Inr sid \<Rightarrow>
                            (insert_call_log lid ''twilio_call'' sid d1,
                             Inr [(''status'', ''twilio_call_placed''), (''sid'', sid)]))
                     | None \<Rightarrow>
                        (insert_call_log lid ''mock_call'' text d1,
                         Inr [(''status'', ''mock_call_logged''), (''text'', text)])))))"

text \<open>
  \<^verbatim>\<open>
  def send_payment_link(loan_id):
      loan = query_all("SELECT l.id, l.emi_amount, c.phone FROM loans l JOIN customers c
                        ON l.customer_id = c.id WHERE l.id = ?", (loan_id,))
      if not loan: return {"error": "Loan not found"}
      loan_info = loan[0]
      payment_link = f"https://example.com/pay?loan={loan_id}&amount={loan_info['emi_amount']}"
      sms_body = f"TVS Credit: Pay your EMI of Rs {loan_info['emi_amount']}. Click {payment_link}"
      if USE_TWILIO and tw_client:
          msg = tw_client.messages.create(body=sms_body, from_=TWILIO_NUMBER, to=loan_info['phone'])
          detail = f"tw_sms:{msg.sid}"
      else:
          detail = f"mock_sms_sent_to_{loan_info['phone']}::{payment_link}"
      execute("INSERT INTO call_logs ...", (loan_id, "payment_link_sent", detail))
      return {"status": "payment_link_sent", "link": payment_link}
  \<close>
\<close>

definition send_payment_link :: "env \<Rightarrow> int \<Rightarrow> db \<Rightarrow> db \<times> (exn + result)" where
  "send_payment_link e lid d =
     (if \<not> sqlite_int lid then (d, Inl OverflowError) else
      case select_loan_join lid d of
        [] \<Rightarrow> (d, Inr [(''error'', ''Loan not found'')])
      | (l, c) # _ \<Rightarrow>
         (let payment_link = ''https://example.com/pay?loan='' @ str_int lid @ ''&amount='' @
                             str_int (emi_amount l);
              sms_body = ''TVS Credit: Pay your EMI of Rs '' @ str_int (emi_amount l) @ ''. Click '' @
                         payment_link;
              ok = (\<lambda>detail. (insert_call_log lid ''payment_link_sent'' detail d,
                               Inr [(''status'', ''payment_link_sent''), (''link'', payment_link)]))
          in case tw_client e of
               Some tw \<Rightarrow>
                (case messages_create tw sms_body (TWILIO_NUMBER tw) (phone c) of
                   Inl x \<Rightarrow> (d, Inl x)
                 | Inr sid \<Rightarrow> ok (''tw_sms:'' @ sid))
             | None \<Rightarrow> ok (''mock_sms_sent_to_'' @ phone c @ ''::'' @ payment_link)))"

text \<open>
  \<^verbatim>\<open>
  def mark_paid(loan_id):
      execute("UPDATE loans SET status = 'paid' WHERE id = ?", (loan_id,))
      execute("INSERT INTO call_logs (loan_id, event, detail) VALUES (?, ?, ?)",
              (loan_id, "marked_paid", "Webhook/Manual"))
      return {"status": "ok"}
  \<close>
\<close>

definition mark_paid :: "int \<Rightarrow> db \<Rightarrow> db \<times> (exn + result)" where
  "mark_paid lid d =
     (if \<not> sqlite_int lid then (d, Inl OverflowError) else
      (insert_call_log lid ''marked_paid'' ''Webhook/Manual'' (update_status_paid lid d),
       Inr [(''status'', ''ok'')]))"

text \<open>
  \<^verbatim>\<open>
  def reschedule_loan(loan_id, days_to_add=7):
      loan = query_all("SELECT due_date FROM loans WHERE id = ?", (loan_id,))
      if not loan: return {"error": "Loan not found"}
      current_due_date = datetime.fromisoformat(loan[0]['due_date']).date()
      new_due_date = current_due_date + timedelta(days=days_to_add)
      execute("UPDATE loans SET status = 'rescheduled', due_date = ? WHERE id = ?",
              (new_due_date.isoformat(), loan_id))
      execute("INSERT INTO call_logs ...",
              (loan_id, "rescheduled", f"New due date: {new_due_date.isoformat()}"))
      return {"status": "rescheduled", "new_date": new_due_date.isoformat()}
  \<close>
\<close>

definition reschedule_loan :: "int \<Rightarrow> int \<Rightarrow> db \<Rightarrow> db \<times> (exn + result)" where
  "reschedule_loan lid days_to_add d =
     (if \<not> sqlite_int lid then (d, Inl OverflowError) else
      case filter (\<lambda>l. l_id l = lid) (loans d) of
        [] \<Rightarrow> (d, Inr [(''error'', ''Loan not found'')])
      | l # _ \<Rightarrow>
         (case fromisoformat (due_date l) of
            Inl x \<Rightarrow> (d, Inl x)
          | Inr current_due_date \<Rightarrow>
             (case date_add current_due_date days_to_add of
                Inl x \<Rightarrow> (d, Inl x)
              | Inr new_due_date \<Rightarrow>
                 (insert_call_log lid ''rescheduled'' (''New due date: '' @ isoformat new_due_date)
                    (update_rescheduled (isoformat new_due_date) lid d),
                  Inr [(''status'', ''rescheduled''), (''new_date'', isoformat new_due_date)]))))"

text \<open>The default \<^verbatim>\<open>days_to_add=7\<close> and \<^verbatim>\<open>message_key="reminder"\<close>.\<close>

definition reschedule_loan_default :: "int \<Rightarrow> db \<Rightarrow> db \<times> (exn + result)" where
  "reschedule_loan_default lid d = reschedule_loan lid 7 d"

definition place_call_default :: "env \<Rightarrow> int \<Rightarrow> db \<Rightarrow> db \<times> (exn + result)" where
  "place_call_default e lid d = place_call e lid ''reminder'' d"

section \<open>The dashboard's actions\<close>

subsection \<open>Selecting loans\<close>

text \<open>
  \<^verbatim>\<open>SELECT id FROM loans WHERE due_date <= ? AND status='due'\<close> with
  \<^verbatim>\<open>date.today().isoformat()\<close>, and
  \<^verbatim>\<open>SELECT id FROM loans WHERE due_date = ? AND status='due'\<close> with
  \<^verbatim>\<open>(date.today() + timedelta(days=3)).isoformat()\<close>. Both compare the stored
  text with the parameter as text; the queries have no \<^verbatim>\<open>ORDER BY\<close>.
\<close>

definition select_overdue :: "string \<Rightarrow> db \<Rightarrow> int list" where
  "select_overdue as_of d =
     map l_id (filter (\<lambda>l. due_date l \<le> as_of \<and> status l = Due) (loans d))"

definition select_pre_due :: "string \<Rightarrow> db \<Rightarrow> int list" where
  "select_pre_due pre_due_date d =
     map l_id (filter (\<lambda>l. due_date l = pre_due_date \<and> status l = Due) (loans d))"

subsection \<open>The bulk buttons\<close>

text \<open>
  \<^verbatim>\<open>
  for i, loan in enumerate(overdue_loans):
      place_call(loan['id'])
      st.toast(...); progress_bar.progress(...)
  progress_bar.empty()
  st.success(f"Finished calling all {len(overdue_loans)} overdue customers.")
  \<close>
  The value \<^verbatim>\<open>place_call\<close> returns is dropped; an exception leaves the loop
  and the handler. Toasts and the progress bar are display only.
\<close>

datatype st_msg = st_warning string | st_success string

fun call_loop :: "env \<Rightarrow> string \<Rightarrow> int list \<Rightarrow> db \<Rightarrow> db \<times> (exn + unit)" where
  "call_loop e key [] d = (d, Inr ())"
| "call_loop e key (i # ids) d =
     (case place_call e i key d of
        (d', Inl x) \<Rightarrow> (d', Inl x)
      | (d', Inr r) \<Rightarrow> call_loop e key ids d')"

definition bulk_call :: "env \<Rightarrow> string \<Rightarrow> string \<Rightarrow> int list \<Rightarrow> db \<Rightarrow> db \<times> (exn + st_msg)" where
  "bulk_call e key what target_loans d =
     (case call_loop e key target_loans d of
        (d', Inl x) \<Rightarrow> (d', Inl x)
      | (d', Inr u) \<Rightarrow>
         (d', Inr (st_success (''Finished calling all '' @ str_int (int (length target_loans)) @
                               '' '' @ what @ '' customers.''))))"

definition call_overdue_customers :: "env \<Rightarrow> date \<Rightarrow> db \<Rightarrow> db \<times> (exn + st_msg)" where
  "call_overdue_customers e today d =
     (let overdue_loans = select_overdue (isoformat today) d
      in if overdue_loans = [] then (d, Inr (st_warning ''No overdue loans to call.''))
         else bulk_call e ''reminder'' ''overdue'' overdue_loans d)"

definition call_pre_due_customers :: "env \<Rightarrow> date \<Rightarrow> db \<Rightarrow> db \<times> (exn + st_msg)" where
  "call_pre_due_customers e today d =
     (case date_add today 3 of
        Inl x \<Rightarrow> (d, Inl x)
      | Inr target \<Rightarrow>
         (let target_loans = select_pre_due (isoformat target) d
          in if target_loans = [] then (d, Inr (st_warning ''No customers with EMIs due in 3 days.''))
             else bulk_call e ''pre_due_reminder'' ''pre-due'' target_loans d))"

subsection \<open>The create form\<close>

text \<open>
  \<^verbatim>\<open>
  cid = execute("INSERT INTO customers (name, phone, language) VALUES (?, ?, ?)", (cname, cphone, clang))
  loan_id = execute("INSERT INTO loans (customer_id, emi_amount, due_date) VALUES (?, ?, ?)",
                    (cid, emi_amt, due.isoformat()))
  \<close>
  The new loan takes the column default \<^verbatim>\<open>'due'\<close>. The amount is bound in the
  second statement: one outside the 64 bits raises there, after the customer has
  been inserted. The result is the store and the new loan's id or the exception.
\<close>

definition create_loan ::
  "string \<Rightarrow> string \<Rightarrow> string \<Rightarrow> int \<Rightarrow> date \<Rightarrow> db \<Rightarrow> db \<times> (exn + int)" where
  "create_loan cname cphone clang emi_amt due d =
     (let cid = next_id (map c_id (customers d));
          d1 = d\<lparr>customers := customers d @
                 [\<lparr>c_id = cid, name = cname, phone = cphone, language = clang\<rparr>]\<rparr>;
          new_id = next_id (map l_id (loans d1))
      in if \<not> sqlite_int emi_amt then (d1, Inl OverflowError)
         else (d1\<lparr>loans := loans d1 @
                  [\<lparr>l_id = new_id, customer_id = cid, emi_amount = emi_amt,
                    due_date = isoformat due, status = Due\<rparr>]\<rparr>,
               Inr new_id))"

subsection \<open>All actions on the store\<close>

text \<open>
  The ways the dashboard writes to the store: the create form, the four
  single-loan buttons (which call \<^verbatim>\<open>place_call\<close> and \<^verbatim>\<open>reschedule_loan\<close>
  with their defaults) and the two bulk buttons. \<open>apply_operation\<close> gives the
  store as the action leaves it, whether it returned or raised. The seed button,
  which fills an empty store with randomly drawn rows, is not modelled.
\<close>

datatype operation =
    CreateLoan string string string int date
  | PlaceCall int
  | SendPaymentLink int
  | MarkPaid int
  | RescheduleLoan int
  | CallOverdueCustomers date
  | CallPreDueCustomers date

fun apply_operation :: "env \<Rightarrow> operation \<Rightarrow> db \<Rightarrow> db" where
  "apply_operation e (CreateLoan cname cphone clang emi_amt due) d =
     fst (create_loan cname cphone clang emi_amt due d)"
| "apply_operation e (PlaceCall lid) d = fst (place_call_default e lid d)"
| "apply_operation e (SendPaymentLink lid) d = fst (send_payment_link e lid d)"
| "apply_operation e (MarkPaid lid) d = fst (mark_paid lid d)"
| "apply_operation e (RescheduleLoan lid) d = fst (reschedule_loan_default lid d)"
| "apply_operation e (CallOverdueCustomers today) d = fst (call_overdue_customers e today d)"
| "apply_operation e (CallPreDueCustomers today) d = fst (call_pre_due_customers e today d)"

section \<open>Invariants of the store\<close>

text \<open>
  Ids are primary keys handed out in increasing order, so every table lists its
  rows by strictly increasing id; every stored due date is the ISO text of a
  date.
\<close>

definition ids_ascending :: "db \<Rightarrow> bool" where
  "ids_ascending d =
     (sorted_wrt (<) (map c_id (customers d)) \<and> sorted_wrt (<) (map l_id (loans d)) \<and>
      sorted_wrt (<) (map e_id (call_logs d)))"

definition is_iso_date :: "string \<Rightarrow> bool" where
  "is_iso_date s = (case fromisoformat s of Inl x \<Rightarrow> False | Inr dt \<Rightarrow> isoformat dt = s)"

definition iso_dates :: "db \<Rightarrow> bool" where
  "iso_dates d = list_all (\<lambda>l. is_iso_date (due_date l)) (loans d)"

section \<open>Auxiliary notions\<close>

text \<open>
  \<open>two_digits\<close> and \<open>date_fields_in_range\<close> serve the lemmas on ISO texts.
  \<open>status_step op l l'\<close> relates a loan row before and after the action \<open>op\<close>:
  the row keeps its id, and its status either stays, or becomes \<^verbatim>\<open>paid\<close> because
  \<open>op\<close> marks this loan paid, or becomes \<^verbatim>\<open>rescheduled\<close> because \<open>op\<close>
  reschedules this loan.
\<close>

definition two_digits :: "nat \<Rightarrow> string" where
  "two_digits n = [dig (n div 10), dig (n mod 10)]"

definition date_fields_in_range :: "date \<Rightarrow> bool" where
  "date_fields_in_range d =
     (0 \<le> year d \<and> year d < 10000 \<and> 0 \<le> month d \<and> month d < 100 \<and> 0 \<le> day d \<and> day d < 100)"


text \<open>
  The two English reminder templates with their fields filled in, written out:
  what the English rendering of a reminder is expected to be.
\<close>

definition en_reminder_text :: "string \<Rightarrow> string \<Rightarrow> string" where
  "en_reminder_text nm amt =
     ''Hello '' @ nm @ ''. This is a reminder from TVS Credit. Your EMI of Rs '' @ amt @
     '' is due today. Press 1 to pay now, or press 2 to request a reschedule.''"


text \<open>
  The last part of \<open>ord2ymd\<close>, which finds month and day from the day of the
  year, and the property of it that is checked for every day of the year.
\<close>

definition month_part :: "bool \<Rightarrow> int \<Rightarrow> int \<times> int" where
  "month_part leapyear n =
     (let mo = (n + 50) div 32;
          preceding = DAYS_BEFORE_MONTH ! nat mo + (if mo > 2 \<and> leapyear then 1 else 0)
      in if preceding > n
         then let mo = mo - 1;
                  preceding = preceding - (DAYS_IN_MONTH ! nat mo + (if mo = 2 \<and> leapyear then 1 else 0))
              in (mo, n - preceding + 1)
         else (mo, n - preceding + 1))"

definition month_part_ok :: "bool \<Rightarrow> int \<Rightarrow> bool" where
  "month_part_ok leapyear n =
     (case month_part leapyear n of
        (mo, dy) \<Rightarrow>
          1 \<le> mo \<and> mo \<le> 12 \<and> 1 \<le> dy \<and>
          dy \<le> (if mo = 2 \<and> leapyear then 29 else DAYS_IN_MONTH ! nat mo) \<and>
          DAYS_BEFORE_MONTH ! nat mo + (if mo > 2 \<and> leapyear then 1 else 0) + dy = n + 1)"

text \<open>
  An action is well-formed when the date it carries is a date of the calendar
  (a Python \<^verbatim>\<open>date\<close> object always is).
\<close>

definition valid_operation :: "operation \<Rightarrow> bool" where
  "valid_operation op = (case op of CreateLoan cname cphone clang emi_amt due \<Rightarrow> valid_date due | _ \<Rightarrow> True)"

section \<open>Example stores and environments\<close>

text \<open>Concrete inputs on which the properties below are evaluated.\<close>

definition db_one_due :: db where
  "db_one_due =
     \<lparr>customers = [\<lparr>c_id = 1, name = ''A'', phone = ''+919999888777'', language = ''en''\<rparr>],
      loans = [\<lparr>l_id = 1, customer_id = 1, emi_amount = 4000, due_date = ''2025-01-01'', status = Due\<rparr>],
      call_logs = []\<rparr>"

definition mock_env :: env where
  "mock_env = \<lparr>native_text = (\<lambda>l k. []), tw_client = None\<rparr>"


definition db_five :: db where
  "db_five =
     \<lparr>customers = [\<lparr>c_id = 1, name = ''A'', phone = ''+919999888777'', language = ''en''\<rparr>,
                  \<lparr>c_id = 2, name = ''B'', phone = ''+919123456789'', language = ''xx''\<rparr>],
      loans = [\<lparr>l_id = 1, customer_id = 1, emi_amount = 4000, due_date = ''2025-01-01'', status = Due\<rparr>,
               \<lparr>l_id = 2, customer_id = 1, emi_amount = 1500, due_date = ''2025-01-04'', status = Due\<rparr>,
               \<lparr>l_id = 3, customer_id = 2, emi_amount = 2500, due_date = ''2024-12-25'', status = Paid\<rparr>,
               \<lparr>l_id = 4, customer_id = 2, emi_amount = 8000, due_date = ''2024-12-31'', status = Rescheduled\<rparr>,
               \<lparr>l_id = 5, customer_id = 2, emi_amount = 3000, due_date = ''2024-12-30'', status = Due\<rparr>],
      call_logs = []\<rparr>"

definition jan_1 :: date where
  "jan_1 = \<lparr>year = 2025, month = 1, day = 1\<rparr>"

definition jan_4 :: date where
  "jan_4 = \<lparr>year = 2025, month = 1, day = 4\<rparr>"

text \<open>
  A live channel that refuses one phone number (customer 1 of \<open>db_five\<close>) and
  accepts every other.
\<close>

definition flaky_env :: env where
  "flaky_env =
     \<lparr>native_text = (\<lambda>l k. []),
      tw_client = Some
        \<lparr>TWILIO_NUMBER = ''+15005550006'',
         calls_create = (\<lambda>to from_number body.
            if to = ''+919999888777'' then Inl (ChannelError ''unreachable'') else Inr ''CA1''),
         messages_create = (\<lambda>body from_number to. Inr ''SM1'')\<rparr>\<rparr>"


text \<open>
  A store whose one loan is due three days before the last day of the calendar,
  as the create form leaves it when given that date.
\<close>

definition db_late :: db where
  "db_late =
     \<lparr>customers = [\<lparr>c_id = 1, name = ''A'', phone = ''+919999888777'', language = ''en''\<rparr>],
      loans = [\<lparr>l_id = 1, customer_id = 1, emi_amount = 4000, due_date = ''9999-12-28'', status = Due\<rparr>],
      call_logs = []\<rparr>"
section \<open>Frame lemmas for the store updates\<close>

lemma loans_insert_call_log [simp]: "loans (insert_call_log lid ev det d) = loans d"
  by (simp add: insert_call_log_def)

lemma customers_insert_call_log [simp]: "customers (insert_call_log lid ev det d) = customers d"
  by (simp add: insert_call_log_def)

lemma call_logs_insert_call_log:
  "call_logs (insert_call_log lid ev det d) =
     call_logs d @ [\<lparr>e_id = next_id (map e_id (call_logs d)), loan_id = lid, event = ev, detail = det\<rparr>]"
  by (simp add: insert_call_log_def)

lemma update_status_paid_frame [simp]:
  "customers (update_status_paid lid d) = customers d"
  "call_logs (update_status_paid lid d) = call_logs d"
  by (simp_all add: update_status_paid_def)

lemma update_status_paid_absent:
  "lid \<notin> l_id ` set (loans d) \<Longrightarrow> loans (update_status_paid lid d) = loans d"
  by (auto simp: update_status_paid_def intro!: map_idI)

lemma update_status_paid_idem:
  "loans (update_status_paid lid (update_status_paid lid d)) = loans (update_status_paid lid d)"
  by (simp add: update_status_paid_def)

lemma update_status_paid_status:
  "l \<in> set (loans (update_status_paid lid d)) \<Longrightarrow> l_id l = lid \<Longrightarrow> status l = Paid"
proof -
  assume a: "l \<in> set (loans (update_status_paid lid d))" and b: "l_id l = lid"
  from a obtain l0 where l0: "l0 \<in> set (loans d)"
    and l: "l = (if l_id l0 = lid then l0\<lparr>status := Paid\<rparr> else l0)"
    unfolding update_status_paid_def by auto
  show ?thesis
  proof (cases "l_id l0 = lid")
    case True
    then show ?thesis using l by simp
  next
    case False
    then show ?thesis using l b by simp
  qed
qed

lemma mark_paid_fst: "sqlite_int lid \<Longrightarrow> fst (mark_paid lid d) =
   insert_call_log lid ''marked_paid'' ''Webhook/Manual'' (update_status_paid lid d)"
  by (simp add: mark_paid_def)

lemma mark_paid_snd: "sqlite_int lid \<Longrightarrow> snd (mark_paid lid d) = Inr [(''status'', ''ok'')]"
  by (simp add: mark_paid_def)

lemma mark_paid_refused: "\<not> sqlite_int lid \<Longrightarrow> mark_paid lid d = (d, Inl OverflowError)"
  by (simp add: mark_paid_def)

lemma sqlite_int_small [simp]:
  "sqlite_int 1" "sqlite_int 2" "sqlite_int 3" "sqlite_int 5" "sqlite_int 7" "sqlite_int 42"
  "sqlite_int 99" "sqlite_int 4000"
  by (simp_all add: sqlite_int_def)

lemma db_one_due_paid_twice:
  "fst (mark_paid 1 (fst (mark_paid 1 db_one_due))) =
     \<lparr>customers = [\<lparr>c_id = 1, name = ''A'', phone = ''+919999888777'', language = ''en''\<rparr>],
      loans = [\<lparr>l_id = 1, customer_id = 1, emi_amount = 4000, due_date = ''2025-01-01'', status = Paid\<rparr>],
      call_logs = [\<lparr>e_id = 1, loan_id = 1, event = ''marked_paid'', detail = ''Webhook/Manual''\<rparr>,
                   \<lparr>e_id = 2, loan_id = 1, event = ''marked_paid'', detail = ''Webhook/Manual''\<rparr>]\<rparr>"
  by (simp add: db_one_due_def mark_paid_def update_status_paid_def insert_call_log_def next_id_def)

lemma select_loan_join_absent:
  "lid \<notin> l_id ` set (loans d) \<Longrightarrow> select_loan_join lid d = []"
  by (auto simp: select_loan_join_def)

lemma filter_key_distinct:
  "distinct (map f xs) \<Longrightarrow> x \<in> set xs \<Longrightarrow> filter (\<lambda>y. f y = f x) xs = [x]"
proof (induction xs)
  case Nil
  then show ?case by simp
next
  case (Cons a xs)
  show ?case
  proof (cases "a = x")
    case True
    have "\<forall>y \<in> set xs. f y \<noteq> f x"
      using Cons.prems(1) True by (auto simp: image_iff)
    then have "filter (\<lambda>y. f y = f x) xs = []"
      by (simp add: filter_empty_conv)
    then show ?thesis using True by simp
  next
    case False
    then have x: "x \<in> set xs" using Cons.prems(2) by simp
    then have "f a \<noteq> f x" using Cons.prems(1) by (auto simp: image_iff)
    moreover have "filter (\<lambda>y. f y = f x) xs = [x]"
      using Cons.IH Cons.prems(1) x by simp
    ultimately show ?thesis by simp
  qed
qed

lemma filter_key_absent: "k \<notin> f ` set xs \<Longrightarrow> filter (\<lambda>y. f y = k) xs = []"
  by (auto simp: filter_empty_conv)

lemma update_rescheduled_frame [simp]:
  "customers (update_rescheduled s lid d) = customers d"
  "call_logs (update_rescheduled s lid d) = call_logs d"
  by (simp_all add: update_rescheduled_def)

lemma loans_update_rescheduled:
  "loans (update_rescheduled s lid d) =
     map (\<lambda>l. if l_id l = lid then l\<lparr>status := Rescheduled, due_date := s\<rparr> else l) (loans d)"
  by (simp add: update_rescheduled_def)

lemma reschedule_loan_found:
  assumes "filter (\<lambda>l. l_id l = lid) (loans d) = l # ls"
    and "fromisoformat (due_date l) = Inr cur"
    and "date_add cur days = Inr new"
    and "sqlite_int lid"
  shows "reschedule_loan lid days d =
     (insert_call_log lid ''rescheduled'' (''New due date: '' @ isoformat new)
        (update_rescheduled (isoformat new) lid d),
      Inr [(''status'', ''rescheduled''), (''new_date'', isoformat new)])"
  using assms by (simp add: reschedule_loan_def)

lemmas date_eval =
  fromisoformat_def digit_val_def mk_date_def MINYEAR_def MAXYEAR_def days_in_month_def
  DAYS_IN_MONTH_def date_add_def toordinal_def ymd2ord_def days_before_year_def
  days_before_month_def DAYS_BEFORE_MONTH_def MAXORDINAL_def ord2ymd_def Let_def is_leap_def
  isoformat_def zero_pad_def str_nat.simps dig_def

lemma date_2025_01_01:
  "fromisoformat ''2025-01-01'' = Inr \<lparr>year = 2025, month = 1, day = 1\<rparr>"
  "date_add \<lparr>year = 2025, month = 1, day = 1\<rparr> 7 = Inr \<lparr>year = 2025, month = 1, day = 8\<rparr>"
  "isoformat \<lparr>year = 2025, month = 1, day = 8\<rparr> = ''2025-01-08''"
  "fromisoformat ''2025-01-08'' = Inr \<lparr>year = 2025, month = 1, day = 8\<rparr>"
  "date_add \<lparr>year = 2025, month = 1, day = 8\<rparr> 7 = Inr \<lparr>year = 2025, month = 1, day = 15\<rparr>"
  "isoformat \<lparr>year = 2025, month = 1, day = 15\<rparr> = ''2025-01-15''"
  by (simp_all add: date_eval)

lemma reschedule_db_one_due:
  "reschedule_loan 1 7 db_one_due =
    (\<lparr>customers = [\<lparr>c_id = 1, name = ''A'', phone = ''+919999888777'', language = ''en''\<rparr>],
      loans = [\<lparr>l_id = 1, customer_id = 1, emi_amount = 4000, due_date = ''2025-01-08'',
                status = Rescheduled\<rparr>],
      call_logs = [\<lparr>e_id = 1, loan_id = 1, event = ''rescheduled'',
                    detail = ''New due date: 2025-01-08''\<rparr>]\<rparr>,
     Inr [(''status'', ''rescheduled''), (''new_date'', ''2025-01-08'')])"
  by (simp add: reschedule_loan_def db_one_due_def date_2025_01_01 update_rescheduled_def
      insert_call_log_def next_id_def)

lemma reschedule_twice_db_one_due:
  "reschedule_loan 1 7 (fst (reschedule_loan 1 7 db_one_due)) =
    (\<lparr>customers = [\<lparr>c_id = 1, name = ''A'', phone = ''+919999888777'', language = ''en''\<rparr>],
      loans = [\<lparr>l_id = 1, customer_id = 1, emi_amount = 4000, due_date = ''2025-01-15'',
                status = Rescheduled\<rparr>],
      call_logs = [\<lparr>e_id = 1, loan_id = 1, event = ''rescheduled'',
                    detail = ''New due date: 2025-01-08''\<rparr>,
                   \<lparr>e_id = 2, loan_id = 1, event = ''rescheduled'',
                    detail = ''New due date: 2025-01-15''\<rparr>]\<rparr>,
     Inr [(''status'', ''rescheduled''), (''new_date'', ''2025-01-15'')])"
  by (simp add: reschedule_db_one_due)
     (simp add: reschedule_loan_def date_2025_01_01 update_rescheduled_def
      insert_call_log_def next_id_def)

section \<open>ISO date texts and their order\<close>

lemma nat_less_10_cases:
  "(n::nat) < 10 \<Longrightarrow> n = 0 \<or> n = 1 \<or> n = 2 \<or> n = 3 \<or> n = 4 \<or> n = 5 \<or> n = 6 \<or> n = 7 \<or> n = 8 \<or> n = 9"
  by arith

lemma of_char_dig:
  assumes "n < 10"
  shows "(of_char (dig n) :: nat) = 48 + n"
  using nat_less_10_cases[OF assms] by (elim disjE; simp add: dig_def)

lemma dig_less_iff: "a < 10 \<Longrightarrow> b < 10 \<Longrightarrow> (dig a < dig b) = (a < b)"
  by (simp add: less_char_def of_char_dig)

lemma dig_eq_iff: "a < 10 \<Longrightarrow> b < 10 \<Longrightarrow> (dig a = dig b) = (a = b)"
  by (metis of_char_dig add_left_cancel)

lemma replicate_small:
  "replicate 1 c = [c]" "replicate 2 c = [c, c]" "replicate 3 c = [c, c, c]"
  by (simp_all add: numeral_2_eq_2 numeral_3_eq_3)

lemma dig_0: "dig 0 = CHR ''0''"
  by (simp add: dig_def)

lemma str_nat_1: "n < 10 \<Longrightarrow> str_nat n = [dig n]"
  by (simp add: str_nat.simps)

lemma str_nat_2: "10 \<le> n \<Longrightarrow> n < 100 \<Longrightarrow> str_nat n = [dig (n div 10), dig (n mod 10)]"
  by (subst str_nat.simps) (simp add: str_nat_1)

lemma str_nat_3: "100 \<le> n \<Longrightarrow> n < 1000 \<Longrightarrow>
   str_nat n = [dig (n div 100), dig (n div 10 mod 10), dig (n mod 10)]"
  by (subst str_nat.simps) (simp add: str_nat_2 div_mult2_eq[symmetric])

lemma str_nat_4: "1000 \<le> n \<Longrightarrow> n < 10000 \<Longrightarrow>
   str_nat n = [dig (n div 1000), dig (n div 100 mod 10), dig (n div 10 mod 10), dig (n mod 10)]"
  by (subst str_nat.simps) (simp add: str_nat_3 div_mult2_eq[symmetric])

lemma zero_pad_2: "0 \<le> i \<Longrightarrow> i < 100 \<Longrightarrow>
   zero_pad 2 i = [dig (nat i div 10), dig (nat i mod 10)]"
proof -
  assume a: "0 \<le> i" "i < 100"
  show ?thesis
  proof (cases "nat i < 10")
    case True
    then show ?thesis using a by (simp add: zero_pad_def str_nat_1 dig_0)
  next
    case False
    then show ?thesis using a by (simp add: zero_pad_def str_nat_2)
  qed
qed

lemma zero_pad_4: "0 \<le> i \<Longrightarrow> i < 10000 \<Longrightarrow>
   zero_pad 4 i = [dig (nat i div 1000), dig (nat i div 100 mod 10), dig (nat i div 10 mod 10), dig (nat i mod 10)]"
proof -
  assume a: "0 \<le> i" "i < 10000"
  have c: "nat i < 10 \<or> (10 \<le> nat i \<and> nat i < 100) \<or> (100 \<le> nat i \<and> nat i < 1000)
    \<or> (1000 \<le> nat i \<and> nat i < 10000)"
    using a by linarith
  show ?thesis
  proof -
    { assume "nat i < 10"
      then have ?thesis using a by (simp add: zero_pad_def str_nat_1 dig_0 replicate_small) }
    moreover
    { assume h: "10 \<le> nat i \<and> nat i < 100"
      then have "nat i div 10 < 10" by (intro less_mult_imp_div_less) simp
      then have "nat i div 10 mod 10 = nat i div 10" by simp
      then have ?thesis using a h by (simp add: zero_pad_def str_nat_2 dig_0 replicate_small) }
    moreover
    { assume h: "100 \<le> nat i \<and> nat i < 1000"
      then have "nat i div 100 < 10" by (intro less_mult_imp_div_less) simp
      then have "nat i div 100 mod 10 = nat i div 100" by simp
      then have ?thesis using a h by (simp add: zero_pad_def str_nat_3 dig_0 replicate_small) }
    moreover
    { assume "1000 \<le> nat i \<and> nat i < 10000"
      then have ?thesis using a by (simp add: zero_pad_def str_nat_4) }
    ultimately show ?thesis using c by blast
  qed
qed

lemma lex_base10_less:
  fixes qa ra qb rb :: nat
  shows "ra < 10 \<Longrightarrow> rb < 10 \<Longrightarrow> (10 * qa + ra < 10 * qb + rb) = (qa < qb \<or> (qa = qb \<and> ra < rb))"
  by arith

lemma lex_base10_eq:
  fixes qa ra qb rb :: nat
  shows "ra < 10 \<Longrightarrow> rb < 10 \<Longrightarrow> (10 * qa + ra = 10 * qb + rb) = (qa = qb \<and> ra = rb)"
  by arith

lemma less_div10: "((a::nat) < b) = (a div 10 < b div 10 \<or> (a div 10 = b div 10 \<and> a mod 10 < b mod 10))"
  using lex_base10_less[of "a mod 10" "b mod 10" "a div 10" "b div 10"] by simp

lemma eq_div10: "((a::nat) = b) = (a div 10 = b div 10 \<and> a mod 10 = b mod 10)"
  using lex_base10_eq[of "a mod 10" "b mod 10" "a div 10" "b div 10"] by simp

lemma lex_base100_less:
  fixes qa ra qb rb :: nat
  assumes "ra < 100" "rb < 100"
  shows "(100 * qa + ra < 100 * qb + rb) = (qa < qb \<or> (qa = qb \<and> ra < rb))"
proof (cases qa qb rule: linorder_cases)
  case less
  then show ?thesis using assms by linarith
next
  case equal
  then show ?thesis by simp
next
  case greater
  then show ?thesis using assms by linarith
qed

lemma lex_base100_eq:
  fixes qa ra qb rb :: nat
  assumes "ra < 100" "rb < 100"
  shows "(100 * qa + ra = 100 * qb + rb) = (qa = qb \<and> ra = rb)"
proof (cases qa qb rule: linorder_cases)
  case less
  then show ?thesis using assms by linarith
next
  case equal
  then show ?thesis by simp
next
  case greater
  then show ?thesis using assms by linarith
qed

lemma less_div100: "((a::nat) < b) = (a div 100 < b div 100 \<or> (a div 100 = b div 100 \<and> a mod 100 < b mod 100))"
  using lex_base100_less[of "a mod 100" "b mod 100" "a div 100" "b div 100"] by simp

lemma eq_div100: "((a::nat) = b) = (a div 100 = b div 100 \<and> a mod 100 = b mod 100)"
  using lex_base100_eq[of "a mod 100" "b mod 100" "a div 100" "b div 100"] by simp

lemma two_digits_less:
  assumes "a < 100" "b < 100"
  shows "(two_digits a < two_digits b) = (a < b)"
proof -
  have q: "a div 10 < 10" "b div 10 < 10"
    using assms by (auto intro: less_mult_imp_div_less)
  have "(two_digits a < two_digits b) =
        (a div 10 < b div 10 \<or> (a div 10 = b div 10 \<and> a mod 10 < b mod 10))"
    using q by (simp add: two_digits_def dig_less_iff dig_eq_iff)
  also have "\<dots> = (a < b)"
    by (rule less_div10[symmetric])
  finally show ?thesis .
qed

lemma two_digits_eq:
  assumes "a < 100" "b < 100"
  shows "(two_digits a = two_digits b) = (a = b)"
proof -
  have q: "a div 10 < 10" "b div 10 < 10"
    using assms by (auto intro: less_mult_imp_div_less)
  have "(two_digits a = two_digits b) = (a div 10 = b div 10 \<and> a mod 10 = b mod 10)"
    using q by (simp add: two_digits_def dig_eq_iff)
  also have "\<dots> = (a = b)"
    by (rule eq_div10[symmetric])
  finally show ?thesis .
qed

lemma append_less_same_length:
  fixes xs ys :: "'a::linorder list"
  assumes "length xs = length ys"
  shows "(xs @ us < ys @ vs) = (xs < ys \<or> (xs = ys \<and> us < vs))"
  using assms by (induction xs ys rule: list_induct2) auto

lemma zero_pad_2_two: "0 \<le> i \<Longrightarrow> i < 100 \<Longrightarrow> zero_pad 2 i = two_digits (nat i)"
  by (simp add: zero_pad_2 two_digits_def)

lemma zero_pad_4_two:
  assumes "0 \<le> i" "i < 10000"
  shows "zero_pad 4 i = two_digits (nat i div 100) @ two_digits (nat i mod 100)"
proof -
  have "nat i div 100 div 10 = nat i div 1000"
    by (simp add: div_mult2_eq[symmetric])
  moreover have "nat i mod 100 div 10 = nat i div 10 mod 10"
    using mod_mult2_eq[of "nat i" 10 10] by simp
  moreover have "nat i mod 100 mod 10 = nat i mod 10"
    by (simp add: mod_mod_cancel)
  ultimately show ?thesis
    using assms by (simp add: zero_pad_4 two_digits_def)
qed

lemma length_two_digits: "length (two_digits n) = 2"
  by (simp add: two_digits_def)

lemma zero_pad_2_less:
  assumes "0 \<le> a" "a < 100" "0 \<le> b" "b < 100"
  shows "(zero_pad 2 a < zero_pad 2 b) = (a < b)"
  using assms by (simp add: zero_pad_2_two two_digits_less) linarith

lemma zero_pad_2_eq:
  assumes "0 \<le> a" "a < 100" "0 \<le> b" "b < 100"
  shows "(zero_pad 2 a = zero_pad 2 b) = (a = b)"
  using assms by (simp add: zero_pad_2_two two_digits_eq) linarith

lemma zero_pad_4_eq:
  assumes "0 \<le> a" "a < 10000" "0 \<le> b" "b < 10000"
  shows "(zero_pad 4 a = zero_pad 4 b) = (a = b)"
proof -
  have q: "nat a div 100 < 100" "nat b div 100 < 100"
    using assms by (auto intro: less_mult_imp_div_less)
  have "(zero_pad 4 a = zero_pad 4 b) =
        (nat a div 100 = nat b div 100 \<and> nat a mod 100 = nat b mod 100)"
    using assms q by (simp add: zero_pad_4_two length_two_digits two_digits_eq)
  also have "\<dots> = (nat a = nat b)"
    by (rule eq_div100[symmetric])
  also have "\<dots> = (a = b)"
    using assms by auto
  finally show ?thesis .
qed

lemma zero_pad_4_less:
  assumes "0 \<le> a" "a < 10000" "0 \<le> b" "b < 10000"
  shows "(zero_pad 4 a < zero_pad 4 b) = (a < b)"
proof -
  have q: "nat a div 100 < 100" "nat b div 100 < 100"
    using assms by (auto intro: less_mult_imp_div_less)
  have "(zero_pad 4 a < zero_pad 4 b) =
        (nat a div 100 < nat b div 100 \<or>
         (nat a div 100 = nat b div 100 \<and> nat a mod 100 < nat b mod 100))"
    using assms q
    by (simp add: zero_pad_4_two append_less_same_length length_two_digits
        two_digits_eq two_digits_less)
  also have "\<dots> = (nat a < nat b)"
    by (rule less_div100[symmetric])
  also have "\<dots> = (a < b)"
    using assms by auto
  finally show ?thesis .
qed

lemma length_zero_pad_4: "0 \<le> a \<Longrightarrow> a < 10000 \<Longrightarrow> length (zero_pad 4 a) = 4"
  by (simp add: zero_pad_4)

lemma length_zero_pad_2: "0 \<le> a \<Longrightarrow> a < 100 \<Longrightarrow> length (zero_pad 2 a) = 2"
  by (simp add: zero_pad_2)

lemma isoformat_less:
  assumes "date_fields_in_range a" "date_fields_in_range b"
  shows "(isoformat a < isoformat b) =
         (year a < year b \<or> (year a = year b \<and> (month a < month b \<or> (month a = month b \<and> day a < day b))))"
  using assms
  by (simp add: isoformat_def date_fields_in_range_def append_less_same_length
      length_zero_pad_4 length_zero_pad_2 zero_pad_4_less zero_pad_4_eq zero_pad_2_less zero_pad_2_eq)

lemma isoformat_eq:
  assumes "date_fields_in_range a" "date_fields_in_range b"
  shows "(isoformat a = isoformat b) = (year a = year b \<and> month a = month b \<and> day a = day b)"
  using assms
  by (simp add: isoformat_def date_fields_in_range_def
      length_zero_pad_4 length_zero_pad_2 zero_pad_4_eq zero_pad_2_eq)

lemma isoformat_le:
  assumes "date_fields_in_range a" "date_fields_in_range b"
  shows "(isoformat a \<le> isoformat b) = date_le a b"
  unfolding le_less isoformat_less[OF assms] isoformat_eq[OF assms] date_le_def
  by auto

lemma days_in_month_le: "1 \<le> m \<Longrightarrow> m \<le> 12 \<Longrightarrow> days_in_month y m \<le> 31"
proof -
  assume "1 \<le> m" "m \<le> 12"
  then have "m = 1 \<or> m = 2 \<or> m = 3 \<or> m = 4 \<or> m = 5 \<or> m = 6 \<or> m = 7 \<or> m = 8 \<or> m = 9
     \<or> m = 10 \<or> m = 11 \<or> m = 12" by arith
  then show ?thesis
    by (elim disjE; simp add: days_in_month_def DAYS_IN_MONTH_def)
qed

lemma valid_date_in_range: "valid_date d \<Longrightarrow> date_fields_in_range d"
  using days_in_month_le[of "month d" "year d"]
  by (simp add: valid_date_def date_fields_in_range_def MINYEAR_def MAXYEAR_def)

lemma mk_date_valid: "mk_date y m d = Inr dt \<Longrightarrow> valid_date dt"
  by (auto simp: mk_date_def valid_date_def split: if_splits)

lemma fromisoformat_valid: "fromisoformat s = Inr d \<Longrightarrow> valid_date d"
  by (auto simp: fromisoformat_def split: if_splits option.splits dest: mk_date_valid)

section \<open>What each action does to the loans table\<close>

lemma loans_place_call [simp]: "loans (fst (place_call e lid message_key d)) = loans d"
  by (simp add: place_call_def Let_def split: list.split prod.split sum.split option.split)

lemma customers_place_call [simp]: "customers (fst (place_call e lid message_key d)) = customers d"
  by (simp add: place_call_def Let_def split: list.split prod.split sum.split option.split)

lemma call_logs_place_call: "\<exists>es. call_logs (fst (place_call e lid message_key d)) = call_logs d @ es"
  by (simp add: place_call_def Let_def call_logs_insert_call_log
      split: list.split prod.split sum.split option.split)

lemma loans_send_payment_link [simp]: "loans (fst (send_payment_link e lid d)) = loans d"
  by (simp add: send_payment_link_def Let_def split: list.split prod.split sum.split option.split)

lemma customers_send_payment_link [simp]: "customers (fst (send_payment_link e lid d)) = customers d"
  by (simp add: send_payment_link_def Let_def split: list.split prod.split sum.split option.split)

lemma call_logs_send_payment_link:
  "\<exists>es. call_logs (fst (send_payment_link e lid d)) = call_logs d @ es"
  by (simp add: send_payment_link_def Let_def call_logs_insert_call_log
      split: list.split prod.split sum.split option.split)

lemma loans_call_loop [simp]: "loans (fst (call_loop e key ids d)) = loans d"
proof (induction ids arbitrary: d)
  case Nil
  show ?case by simp
next
  case (Cons i ids)
  obtain d' r where p: "place_call e i key d = (d', r)"
    by (cases "place_call e i key d")
  then have l: "loans d' = loans d"
    using loans_place_call[of e i key d] by simp
  show ?case
  proof (cases r)
    case (Inl x)
    then show ?thesis using p l by simp
  next
    case (Inr res)
    then show ?thesis using p l Cons.IH[of d'] by simp
  qed
qed

lemma loans_bulk_call [simp]: "loans (fst (bulk_call e key what ids d)) = loans d"
proof -
  obtain d' r where c: "call_loop e key ids d = (d', r)"
    by (cases "call_loop e key ids d")
  then have "loans d' = loans d"
    using loans_call_loop[of e key ids d] by simp
  then show ?thesis
    using c by (cases r) (simp_all add: bulk_call_def)
qed

lemma loans_call_overdue_customers [simp]:
  "loans (fst (call_overdue_customers e today d)) = loans d"
  by (simp add: call_overdue_customers_def Let_def)

lemma loans_call_pre_due_customers [simp]:
  "loans (fst (call_pre_due_customers e today d)) = loans d"
  by (simp add: call_pre_due_customers_def Let_def split: sum.split)


lemma loans_mark_paid:
  "loans (fst (mark_paid lid d)) =
     (if sqlite_int lid then map (\<lambda>l. if l_id l = lid then l\<lparr>status := Paid\<rparr> else l) (loans d)
      else loans d)"
  by (simp add: mark_paid_def update_status_paid_def)




section \<open>Selections\<close>

lemma is_iso_dateD:
  assumes "is_iso_date s"
  obtains dt where "fromisoformat s = Inr dt" "valid_date dt" "isoformat dt = s"
proof -
  from assms obtain dt where p: "fromisoformat s = Inr dt" and i: "isoformat dt = s"
    by (auto simp: is_iso_date_def split: sum.splits)
  from p have "valid_date dt" by (rule fromisoformat_valid)
  then show thesis using p i that by blast
qed

lemma date_eq_iff:
  fixes a b :: date
  shows "(a = b) = (year a = year b \<and> month a = month b \<and> day a = day b)"
  by auto

lemma isoformat_inj:
  assumes "valid_date a" "valid_date b"
  shows "(isoformat a = isoformat b) = (a = b)"
  using isoformat_eq[OF valid_date_in_range[OF assms(1)] valid_date_in_range[OF assms(2)]]
  by (simp add: date_eq_iff)

lemma iso_datesD: "iso_dates d \<Longrightarrow> l \<in> set (loans d) \<Longrightarrow> is_iso_date (due_date l)"
  by (simp add: iso_dates_def list_all_iff)

lemma mem_map_filter_distinct:
  assumes "distinct (map f xs)" "x \<in> set xs"
  shows "(f x \<in> set (map f (filter P xs))) = P x"
proof
  assume "f x \<in> set (map f (filter P xs))"
  then obtain y where y: "y \<in> set xs" "P y" "f y = f x" by auto
  then have "y = x"
    using assms by (meson distinct_map inj_onD)
  then show "P x" using y by simp
next
  assume "P x"
  then show "f x \<in> set (map f (filter P xs))" using assms(2) by auto
qed

lemma sorted_wrt_map_filter:
  "sorted_wrt R (map f xs) \<Longrightarrow> sorted_wrt R (map f (filter P xs))"
  by (induction xs) auto

lemma ids_ascending_distinct: "ids_ascending d \<Longrightarrow> distinct (map l_id (loans d))"
  by (simp add: ids_ascending_def strict_sorted_iff)

lemma due_text_eq_iff:
  assumes "is_iso_date s" "valid_date target"
  shows "(s = isoformat target) = (fromisoformat s = Inr target)"
proof -
  from assms(1) obtain dt where dt: "fromisoformat s = Inr dt" "valid_date dt" "isoformat dt = s"
    by (rule is_iso_dateD)
  have "(s = isoformat target) = (isoformat dt = isoformat target)"
    using dt(3) by simp
  also have "\<dots> = (dt = target)"
    by (rule isoformat_inj[OF dt(2) assms(2)])
  also have "\<dots> = (fromisoformat s = Inr target)"
    using dt(1) by simp
  finally show ?thesis .
qed

lemma due_text_le_iff:
  assumes "is_iso_date s" "valid_date as_of"
  shows "(s \<le> isoformat as_of) = (\<exists>dt. fromisoformat s = Inr dt \<and> date_le dt as_of)"
proof -
  from assms(1) obtain dt where dt: "fromisoformat s = Inr dt" "valid_date dt" "isoformat dt = s"
    by (rule is_iso_dateD)
  have "(s \<le> isoformat as_of) = (isoformat dt \<le> isoformat as_of)"
    using dt(3) by simp
  also have "\<dots> = date_le dt as_of"
    by (rule isoformat_le[OF valid_date_in_range[OF dt(2)] valid_date_in_range[OF assms(2)]])
  also have "\<dots> = (\<exists>dt. fromisoformat s = Inr dt \<and> date_le dt as_of)"
    using dt(1) by simp
  finally show ?thesis .
qed

lemma db_five_facts:
  "ids_ascending db_five" "iso_dates db_five" "distinct (map l_id (loans db_five))"
  "valid_date jan_1" "valid_date jan_4"
  "isoformat jan_1 = ''2025-01-01''" "isoformat jan_4 = ''2025-01-04''"
  "date_add jan_1 3 = Inr jan_4"
  by (simp_all add: db_five_def ids_ascending_def iso_dates_def is_iso_date_def jan_1_def jan_4_def
      valid_date_def date_eval)

lemma db_five_selections:
  "select_overdue ''2025-01-01'' db_five = [1, 5]"
  "select_pre_due ''2025-01-04'' db_five = [2]"
  by (simp_all add: db_five_def select_overdue_def select_pre_due_def)

section \<open>Rendering a message\<close>

lemma format_en_reminder:
  "format_str ''Hello {name}. This is a reminder from TVS Credit. Your EMI of Rs {amount} is due today. Press 1 to pay now, or press 2 to request a reschedule.''
     [(''name'', nm), (''amount'', amt), (''due_date'', dd)] = Inr (en_reminder_text nm amt)"
  by (simp add: format_str_def en_reminder_text_def)


lemma fst_set_LANG_MSGS: "fst ` set (LANG_MSGS native) = set (''en'' # NATIVE_LANGS)"
  by (simp add: LANG_MSGS_def image_image)

lemma map_of_LANG_MSGS_unmapped:
  "lang \<notin> set (''en'' # NATIVE_LANGS) \<Longrightarrow> map_of (LANG_MSGS native) lang = None"
  by (simp only: map_of_eq_None_iff fst_set_LANG_MSGS not_False_eq_True)

lemma get_msg_unmapped:
  "lang \<notin> set (''en'' # NATIVE_LANGS) \<Longrightarrow>
   get_msg native lang key kw =
     (case map_of EN_MSGS key of None \<Rightarrow> Inl (KeyError key) | Some t \<Rightarrow> format_str t kw)"
  by (simp add: get_msg_def map_of_LANG_MSGS_unmapped)

lemma get_msg_unmapped_reminder:
  "lang \<notin> set (''en'' # NATIVE_LANGS) \<Longrightarrow>
   get_msg native lang ''reminder'' [(''name'', nm), (''amount'', amt), (''due_date'', dd)] =
     Inr (en_reminder_text nm amt)"
  by (simp add: get_msg_unmapped EN_MSGS_def format_en_reminder)




lemma xx_unmapped: "''xx'' \<notin> set (''en'' # NATIVE_LANGS)"
  by (simp add: NATIVE_LANGS_def)


lemma place_call_rendered:
  assumes "select_loan_join lid d = (l, c) # rest"
    and "fromisoformat (due_date l) = Inr dt"
    and "get_msg (native_text e) (language c) key
           [(''name'', name c), (''amount'', str_int (emi_amount l)),
            (''due_date'', strftime_B_d_Y dt)] = Inr text"
    and "sqlite_int lid"
  shows "place_call e lid key d =
     (case tw_client e of
        None \<Rightarrow>
          (insert_call_log lid ''mock_call'' text
             (insert_call_log lid ''call_initiated'' (''to '' @ phone c) d),
           Inr [(''status'', ''mock_call_logged''), (''text'', text)])
      | Some tw \<Rightarrow>
          (case calls_create tw (phone c) (TWILIO_NUMBER tw) (twiml text) of
             Inl x \<Rightarrow> (insert_call_log lid ''call_initiated'' (''to '' @ phone c) d, Inl x)
           | Inr sid \<Rightarrow>
               (insert_call_log lid ''twilio_call'' sid
                  (insert_call_log lid ''call_initiated'' (''to '' @ phone c) d),
                Inr [(''status'', ''twilio_call_placed''), (''sid'', sid)])))"
  using assms by (simp add: place_call_def Let_def split: option.split sum.split)


section \<open>The bulk loop\<close>

lemma call_loop_append:
  "call_loop e key (xs @ ys) d =
     (case call_loop e key xs d of
        (d', Inl x) \<Rightarrow> (d', Inl x)
      | (d', Inr u) \<Rightarrow> call_loop e key ys d')"
proof (induction xs arbitrary: d)
  case Nil
  show ?case by simp
next
  case (Cons i xs)
  obtain d1 r where p: "place_call e i key d = (d1, r)"
    by (cases "place_call e i key d")
  show ?case
  proof (cases r)
    case (Inl x)
    then show ?thesis using p by simp
  next
    case (Inr res)
    then show ?thesis using p Cons.IH[of d1] by simp
  qed
qed

lemma place_call_absent:
  "sqlite_int i \<Longrightarrow> i \<notin> l_id ` set (loans d) \<Longrightarrow>
   place_call e i key d = (d, Inr [(''error'', ''Loan not found'')])"
  by (simp add: place_call_def select_loan_join_absent)

lemma place_call_refused: "\<not> sqlite_int i \<Longrightarrow> place_call e i key d = (d, Inl OverflowError)"
  by (simp add: place_call_def)

lemma place_call_error_store:
  assumes "snd (place_call e i key d) = Inr [(''error'', ''Loan not found'')]"
  shows "place_call e i key d = (d, Inr [(''error'', ''Loan not found'')])"
proof -
  have "fst (place_call e i key d) = d"
    using assms
    by (simp add: place_call_def Let_def
        split: if_splits list.splits prod.splits sum.splits option.splits)
  then show ?thesis using assms by (simp add: prod_eq_iff)
qed

lemma call_loop_not_found:
  "snd (place_call e i key d) = Inr [(''error'', ''Loan not found'')] \<Longrightarrow>
   call_loop e key (i # ids) d = call_loop e key ids d"
  using place_call_error_store[of e i key d] by simp

lemma call_loop_raise:
  assumes "snd (place_call e i key d) = Inl x"
  shows "call_loop e key (i # ids) d = (fst (place_call e i key d), Inl x)"
proof -
  obtain d1 r where p: "place_call e i key d = (d1, r)"
    by (cases "place_call e i key d")
  then show ?thesis using assms by simp
qed

lemma bulk_call_completes:
  assumes "snd (call_loop e key ids d) = Inr u"
  shows "bulk_call e key what ids d =
     (fst (call_loop e key ids d),
      Inr (st_success (''Finished calling all '' @ str_int (int (length ids)) @ '' '' @ what @
                       '' customers.'')))"
proof -
  obtain d1 r where p: "call_loop e key ids d = (d1, r)"
    by (cases "call_loop e key ids d")
  then show ?thesis using assms by (simp add: bulk_call_def)
qed

lemma bulk_call_raise:
  assumes "snd (call_loop e key ids d) = Inl x"
  shows "bulk_call e key what ids d = (fst (call_loop e key ids d), Inl x)"
proof -
  obtain d1 r where p: "call_loop e key ids d = (d1, r)"
    by (cases "call_loop e key ids d")
  then show ?thesis using assms by (simp add: bulk_call_def)
qed

lemma get_msg_en_reminder:
  "get_msg native ''en'' ''reminder'' [(''name'', nm), (''amount'', amt), (''due_date'', dd)] =
     Inr (en_reminder_text nm amt)"
  by (simp add: get_msg_def LANG_MSGS_def EN_MSGS_def format_en_reminder)

lemma create_loan_empty_db:
  "create_loan ''A'' ''+919999888777'' ''en'' 4000 jan_1 empty_db = (db_one_due, Inr 1)"
  by (simp add: create_loan_def empty_db_def db_one_due_def next_id_def db_five_facts Let_def)

lemma place_call_db_one_due:
  "place_call mock_env 1 ''reminder'' db_one_due =
     (db_one_due\<lparr>call_logs :=
        [\<lparr>e_id = 1, loan_id = 1, event = ''call_initiated'', detail = ''to +919999888777''\<rparr>,
         \<lparr>e_id = 2, loan_id = 1, event = ''mock_call'', detail = en_reminder_text ''A'' ''4000''\<rparr>]\<rparr>,
      Inr [(''status'', ''mock_call_logged''), (''text'', en_reminder_text ''A'' ''4000'')])"
proof -
  let ?l = "\<lparr>l_id = 1, customer_id = 1, emi_amount = 4000, due_date = ''2025-01-01'', status = Due\<rparr>"
  let ?c = "\<lparr>c_id = 1, name = ''A'', phone = ''+919999888777'', language = ''en''\<rparr>"
  have j: "select_loan_join 1 db_one_due = (?l, ?c) # []"
    by (simp add: select_loan_join_def db_one_due_def)
  have p: "fromisoformat (due_date ?l) = Inr \<lparr>year = 2025, month = 1, day = 1\<rparr>"
    by (simp add: date_2025_01_01)
  have g: "get_msg (native_text mock_env) (language ?c) ''reminder''
      [(''name'', name ?c), (''amount'', str_int (emi_amount ?l)),
       (''due_date'', strftime_B_d_Y \<lparr>year = 2025, month = 1, day = 1\<rparr>)] =
      Inr (en_reminder_text ''A'' ''4000'')"
    by (simp add: get_msg_en_reminder str_int_def str_nat.simps dig_def)
  show ?thesis
    unfolding place_call_rendered[OF j p g sqlite_int_small(1)]
    by (simp add: mock_env_def insert_call_log_def db_one_due_def next_id_def)
qed

lemma call_overdue_db_one_due:
  "call_overdue_customers mock_env jan_1 db_one_due =
     (db_one_due\<lparr>call_logs :=
        [\<lparr>e_id = 1, loan_id = 1, event = ''call_initiated'', detail = ''to +919999888777''\<rparr>,
         \<lparr>e_id = 2, loan_id = 1, event = ''mock_call'', detail = en_reminder_text ''A'' ''4000''\<rparr>]\<rparr>,
      Inr (st_success ''Finished calling all 1 overdue customers.''))"
proof -
  have s: "select_overdue (isoformat jan_1) db_one_due = [1]"
    by (simp add: db_five_facts select_overdue_def db_one_due_def)
  show ?thesis
    by (simp add: call_overdue_customers_def s bulk_call_def place_call_db_one_due
        str_int_def str_nat.simps dig_def)
qed

lemma place_call_flaky_1:
  "place_call flaky_env 1 ''reminder'' db_five =
     (db_five\<lparr>call_logs :=
        [\<lparr>e_id = 1, loan_id = 1, event = ''call_initiated'', detail = ''to +919999888777''\<rparr>]\<rparr>,
      Inl (ChannelError ''unreachable''))"
proof -
  let ?l = "\<lparr>l_id = 1, customer_id = 1, emi_amount = 4000, due_date = ''2025-01-01'', status = Due\<rparr>"
  let ?c = "\<lparr>c_id = 1, name = ''A'', phone = ''+919999888777'', language = ''en''\<rparr>"
  have j: "select_loan_join 1 db_five = (?l, ?c) # []"
    by (simp add: select_loan_join_def db_five_def)
  have p: "fromisoformat (due_date ?l) = Inr \<lparr>year = 2025, month = 1, day = 1\<rparr>"
    by (simp add: date_2025_01_01)
  have g: "get_msg (native_text flaky_env) (language ?c) ''reminder''
      [(''name'', name ?c), (''amount'', str_int (emi_amount ?l)),
       (''due_date'', strftime_B_d_Y \<lparr>year = 2025, month = 1, day = 1\<rparr>)] =
      Inr (en_reminder_text ''A'' ''4000'')"
    by (simp add: get_msg_en_reminder str_int_def str_nat.simps dig_def)
  show ?thesis
    unfolding place_call_rendered[OF j p g sqlite_int_small(1)]
    by (simp add: flaky_env_def insert_call_log_def db_five_def next_id_def)
qed

lemma place_call_flaky_5:
  "snd (place_call flaky_env 5 ''reminder'' db_five) =
     Inr [(''status'', ''twilio_call_placed''), (''sid'', ''CA1'')]"
proof -
  let ?l = "\<lparr>l_id = 5, customer_id = 2, emi_amount = 3000, due_date = ''2024-12-30'', status = Due\<rparr>"
  let ?c = "\<lparr>c_id = 2, name = ''B'', phone = ''+919123456789'', language = ''xx''\<rparr>"
  have j: "select_loan_join 5 db_five = (?l, ?c) # []"
    by (simp add: select_loan_join_def db_five_def)
  have p: "fromisoformat (due_date ?l) = Inr \<lparr>year = 2024, month = 12, day = 30\<rparr>"
    by (simp add: date_eval)
  have g: "get_msg (native_text flaky_env) (language ?c) ''reminder''
      [(''name'', name ?c), (''amount'', str_int (emi_amount ?l)),
       (''due_date'', strftime_B_d_Y \<lparr>year = 2024, month = 12, day = 30\<rparr>)] =
      Inr (en_reminder_text ''B'' ''3000'')"
    using get_msg_unmapped_reminder[OF xx_unmapped]
    by (simp add: str_int_def str_nat.simps dig_def)
  show ?thesis
    unfolding place_call_rendered[OF j p g sqlite_int_small(4)]
    by (simp add: flaky_env_def)
qed

section \<open>The tables stay in id order\<close>

text \<open>
  \<open>ids_ascending\<close> holds of the empty store and is kept by every action, so it
  holds of every store the dashboard's actions build.
\<close>

lemma fold_max_ge: "(a::int) \<le> fold max xs a"
  by (induction xs arbitrary: a) (auto intro: order_trans[OF max.cobounded2])

lemma fold_max_mem: "x \<in> set xs \<Longrightarrow> (x::int) \<le> fold max xs a"
proof (induction xs arbitrary: a)
  case Nil
  then show ?case by simp
next
  case (Cons y ys)
  show ?case
  proof (cases "x = y")
    case True
    have "x \<le> max y a" using True by simp
    also have "\<dots> \<le> fold max ys (max y a)" by (rule fold_max_ge)
    finally show ?thesis by simp
  next
    case False
    then have "x \<in> set ys" using Cons.prems by simp
    then show ?thesis using Cons.IH by simp
  qed
qed

lemma next_id_greater: "x \<in> set ids \<Longrightarrow> x < next_id ids"
  using fold_max_mem[of x ids 0] by (simp add: next_id_def)

lemma sorted_wrt_append_next_id:
  "sorted_wrt (<) ids \<Longrightarrow> sorted_wrt (<) (ids @ [next_id ids])"
  by (simp add: sorted_wrt_append next_id_greater)

lemma ids_ascending_empty_db: "ids_ascending empty_db"
  by (simp add: ids_ascending_def empty_db_def)

lemma ids_ascending_insert_call_log:
  "ids_ascending d \<Longrightarrow> ids_ascending (insert_call_log lid ev det d)"
  by (simp add: ids_ascending_def insert_call_log_def sorted_wrt_append_next_id)

lemma l_id_update_paid: "l_id \<circ> (\<lambda>l. if l_id l = lid then l\<lparr>status := Paid\<rparr> else l) = l_id"
  by (auto simp: fun_eq_iff)

lemma l_id_update_rescheduled:
  "l_id \<circ> (\<lambda>l. if l_id l = lid then l\<lparr>status := Rescheduled, due_date := s\<rparr> else l) = l_id"
  by (auto simp: fun_eq_iff)

lemma ids_ascending_update_status_paid:
  "ids_ascending d \<Longrightarrow> ids_ascending (update_status_paid lid d)"
  by (simp add: ids_ascending_def update_status_paid_def l_id_update_paid)

lemma ids_ascending_update_rescheduled:
  "ids_ascending d \<Longrightarrow> ids_ascending (update_rescheduled s lid d)"
  by (simp add: ids_ascending_def update_rescheduled_def l_id_update_rescheduled)

lemma ids_ascending_place_call:
  "ids_ascending d \<Longrightarrow> ids_ascending (fst (place_call e lid key d))"
  by (simp add: place_call_def Let_def ids_ascending_insert_call_log
      split: list.split prod.split sum.split option.split)

lemma ids_ascending_send_payment_link:
  "ids_ascending d \<Longrightarrow> ids_ascending (fst (send_payment_link e lid d))"
  by (simp add: send_payment_link_def Let_def ids_ascending_insert_call_log
      split: list.split prod.split sum.split option.split)

lemma ids_ascending_mark_paid:
  "ids_ascending d \<Longrightarrow> ids_ascending (fst (mark_paid lid d))"
  by (simp add: mark_paid_def ids_ascending_insert_call_log ids_ascending_update_status_paid)

lemma ids_ascending_reschedule_loan:
  "ids_ascending d \<Longrightarrow> ids_ascending (fst (reschedule_loan lid days d))"
  by (simp add: reschedule_loan_def ids_ascending_insert_call_log ids_ascending_update_rescheduled
      split: list.split sum.split)

lemma ids_ascending_call_loop:
  "ids_ascending d \<Longrightarrow> ids_ascending (fst (call_loop e key ids d))"
proof (induction ids arbitrary: d)
  case Nil
  then show ?case by simp
next
  case (Cons i ids)
  obtain d1 r where p: "place_call e i key d = (d1, r)"
    by (cases "place_call e i key d")
  have a: "ids_ascending d1"
    using ids_ascending_place_call[OF Cons.prems, of e i key] p by simp
  show ?case
  proof (cases r)
    case (Inl x)
    then show ?thesis using p a by simp
  next
    case (Inr res)
    then show ?thesis using p Cons.IH[OF a] by simp
  qed
qed

lemma ids_ascending_bulk_call:
  assumes "ids_ascending d"
  shows "ids_ascending (fst (bulk_call e key what ids d))"
proof -
  obtain d1 r where c: "call_loop e key ids d = (d1, r)"
    by (cases "call_loop e key ids d")
  then have "ids_ascending d1"
    using ids_ascending_call_loop[OF assms, of e key ids] by simp
  then show ?thesis
    using c by (cases r) (simp_all add: bulk_call_def)
qed

lemma ids_ascending_create_loan:
  "ids_ascending d \<Longrightarrow> ids_ascending (fst (create_loan cname cphone clang emi_amt due d))"
  by (simp add: create_loan_def Let_def ids_ascending_def sorted_wrt_append_next_id)

lemma ids_ascending_apply_operation:
  assumes "ids_ascending d"
  shows "ids_ascending (apply_operation e op d)"
proof (cases op)
  case (CreateLoan cname cphone clang emi_amt due)
  then show ?thesis using assms by (simp add: ids_ascending_create_loan)
next
  case (PlaceCall lid)
  then show ?thesis using assms by (simp add: place_call_default_def ids_ascending_place_call)
next
  case (SendPaymentLink lid)
  then show ?thesis using assms by (simp add: ids_ascending_send_payment_link)
next
  case (MarkPaid lid)
  then show ?thesis using assms by (simp add: ids_ascending_mark_paid)
next
  case (RescheduleLoan lid)
  then show ?thesis
    using assms by (simp add: reschedule_loan_default_def ids_ascending_reschedule_loan)
next
  case (CallOverdueCustomers today)
  then show ?thesis
    using assms by (simp add: call_overdue_customers_def Let_def ids_ascending_bulk_call)
next
  case (CallPreDueCustomers today)
  then show ?thesis
    using assms
    by (simp add: call_pre_due_customers_def Let_def ids_ascending_bulk_call split: sum.split)
qed

lemma ids_ascending_run:
  "ids_ascending (fold (apply_operation e) ops empty_db)"
proof -
  have "ids_ascending d \<Longrightarrow> ids_ascending (fold (apply_operation e) ops d)" for d
    by (induction ops arbitrary: d) (simp_all add: ids_ascending_apply_operation)
  then show ?thesis using ids_ascending_empty_db by blast
qed

section \<open>Reading back an ISO date text\<close>

lemma digit_val_dig:
  assumes "n < 10"
  shows "digit_val (dig n) = Some n"
  using nat_less_10_cases[OF assms] by (elim disjE; simp add: dig_def digit_val_def)

lemma list_of_length_2: "length xs = 2 \<Longrightarrow> \<exists>a b. xs = [a, b]"
proof -
  assume "length xs = 2"
  then have "length xs = Suc (Suc 0)" by simp
  then show ?thesis by (auto simp: length_Suc_conv)
qed

lemma list_of_length_4: "length xs = 4 \<Longrightarrow> \<exists>a b c e. xs = [a, b, c, e]"
proof -
  assume "length xs = 4"
  then have "length xs = Suc (Suc (Suc (Suc 0)))" by simp
  then show ?thesis by (auto simp: length_Suc_conv)
qed

lemma iso_text_shape:
  assumes "length Y = 4" "length M = 2" "length D = 2"
  shows "length (Y @ CHR ''-'' # M @ CHR ''-'' # D) = 10 \<and>
    (Y @ CHR ''-'' # M @ CHR ''-'' # D) ! 4 = CHR ''-'' \<and>
    (Y @ CHR ''-'' # M @ CHR ''-'' # D) ! 7 = CHR ''-'' \<and>
    take 4 (Y @ CHR ''-'' # M @ CHR ''-'' # D) = Y \<and>
    take 2 (drop 5 (Y @ CHR ''-'' # M @ CHR ''-'' # D)) = M \<and>
    take 2 (drop 8 (Y @ CHR ''-'' # M @ CHR ''-'' # D)) = D"
proof -
  obtain a b c e where Y: "Y = [a, b, c, e]" using list_of_length_4[OF assms(1)] by blast
  obtain f g where M: "M = [f, g]" using list_of_length_2[OF assms(2)] by blast
  obtain h i where D: "D = [h, i]" using list_of_length_2[OF assms(3)] by blast
  show ?thesis
    unfolding Y M D by simp
qed

lemma parse_two_digits:
  assumes "n < 100"
  shows "parse_digits 0 (two_digits n) = Some n"
proof -
  have q: "n div 10 < 10" using assms by (intro less_mult_imp_div_less) simp
  have "parse_digits 0 (two_digits n) = Some (10 * (n div 10) + n mod 10)"
    using q by (simp add: two_digits_def digit_val_dig)
  then show ?thesis by simp
qed

lemma parse_four_digits:
  assumes "n < 10000"
  shows "parse_digits 0 (two_digits (n div 100) @ two_digits (n mod 100)) = Some n"
proof -
  have q: "n div 100 < 100" using assms by (intro less_mult_imp_div_less) simp
  have a: "n div 100 div 10 < 10" using q by (intro less_mult_imp_div_less) simp
  have b: "n mod 100 div 10 < 10" by (intro less_mult_imp_div_less) simp
  have "parse_digits 0 (two_digits (n div 100) @ two_digits (n mod 100)) =
      Some (10 * (10 * (10 * (n div 100 div 10) + n div 100 mod 10) + n mod 100 div 10) + n mod 100 mod 10)"
    using a b by (simp add: two_digits_def digit_val_dig)
  also have "10 * (n div 100 div 10) + n div 100 mod 10 = n div 100" by simp
  also have "10 * (10 * (n div 100) + n mod 100 div 10) + n mod 100 mod 10 =
      100 * (n div 100) + (10 * (n mod 100 div 10) + n mod 100 mod 10)" by simp
  also have "10 * (n mod 100 div 10) + n mod 100 mod 10 = n mod 100" by simp
  also have "100 * (n div 100) + n mod 100 = n" by simp
  finally show ?thesis .
qed

lemma fromisoformat_isoformat:
  assumes "valid_date d"
  shows "fromisoformat (isoformat d) = Inr d"
proof -
  have r: "date_fields_in_range d" using assms by (rule valid_date_in_range)
  then have y: "0 \<le> year d" "year d < 10000" and m: "0 \<le> month d" "month d < 100"
    and dd: "0 \<le> day d" "day d < 100"
    by (simp_all add: date_fields_in_range_def)
  let ?Y = "two_digits (nat (year d) div 100) @ two_digits (nat (year d) mod 100)"
  let ?M = "two_digits (nat (month d))"
  let ?D = "two_digits (nat (day d))"
  have iso: "isoformat d = ?Y @ CHR ''-'' # ?M @ CHR ''-'' # ?D"
    using y m dd by (simp add: isoformat_def zero_pad_4_two zero_pad_2_two)
  have len: "length ?Y = 4" "length ?M = 2" "length ?D = 2"
    by (simp_all add: length_two_digits)
  note sh = iso_text_shape[OF len]
  have l10: "length (isoformat d) = 10" and n4: "isoformat d ! 4 = CHR ''-''"
    and n7: "isoformat d ! 7 = CHR ''-''" and t4: "take 4 (isoformat d) = ?Y"
    and t2: "take 2 (drop 5 (isoformat d)) = ?M" and t8: "take 2 (drop 8 (isoformat d)) = ?D"
    unfolding iso using sh by blast+
  have py: "parse_digits 0 ?Y = Some (nat (year d))"
    using y by (intro parse_four_digits) simp
  have pm: "parse_digits 0 ?M = Some (nat (month d))"
    using m by (intro parse_two_digits) simp
  have pd: "parse_digits 0 ?D = Some (nat (day d))"
    using dd by (intro parse_two_digits) simp
  have mk: "mk_date (year d) (month d) (day d) = Inr d"
    using assms by (simp add: mk_date_def valid_date_def)
  show ?thesis
    unfolding fromisoformat_def t4 t2 t8 py pm pd
    using l10 n4 n7 y m dd mk by simp
qed

lemma is_iso_date_isoformat: "valid_date d \<Longrightarrow> is_iso_date (isoformat d)"
  by (simp add: is_iso_date_def fromisoformat_isoformat)

section \<open>Dates and ordinals\<close>

text \<open>
  \<open>ord2ymd\<close> inverts \<open>ymd2ord\<close> on the ordinals of the calendar and yields
  valid dates, so \<open>date_add\<close> is addition of days.
\<close>

lemma month_part_all:
  "list_all (\<lambda>k. month_part_ok True (int k) \<and> month_part_ok False (int k)) [0..<365]"
  by code_simp

lemma days_before_year_decomposed:
  fixes a b c e :: int
  assumes "0 \<le> a" "0 \<le> b" "b \<le> 3" "0 \<le> c" "c \<le> 24" "0 \<le> e" "e \<le> 3"
  shows "days_before_year (400 * a + 100 * b + 4 * c + e + 1) =
         146097 * a + 36524 * b + 1461 * c + 365 * e"
proof -
  let ?y = "400 * a + 100 * b + 4 * c + e"
  have d4: "?y div 4 = 100 * a + 25 * b + c"
    using assms by (intro int_div_pos_eq[where r = e]) simp_all
  have d100: "?y div 100 = 4 * a + b"
    using assms by (intro int_div_pos_eq[where r = "4 * c + e"]) simp_all
  have d400: "?y div 400 = a"
    using assms by (intro int_div_pos_eq[where r = "100 * b + 4 * c + e"]) simp_all
  show ?thesis
    by (simp add: days_before_year_def Let_def d4 d100 d400)
qed

lemma is_leap_decomposed:
  fixes a b c e :: int
  assumes "0 \<le> a" "0 \<le> b" "b \<le> 3" "0 \<le> c" "c \<le> 24" "0 \<le> e" "e \<le> 3"
  shows "is_leap (400 * a + 100 * b + 4 * c + e + 1) = (e = 3 \<and> (c \<noteq> 24 \<or> b = 3))"
proof -
  let ?y = "400 * a + 100 * b + 4 * c + e + 1"
  have m4: "(?y mod 4 = 0) = (e = 3)"
  proof (cases "e = 3")
    case True
    have "?y = 4 * (100 * a + 25 * b + c + 1)" using True by simp
    then show ?thesis using True by simp
  next
    case False
    have "?y mod 4 = e + 1"
      using assms False by (intro int_mod_pos_eq[where q = "100 * a + 25 * b + c"]) simp_all
    then show ?thesis using False assms by simp
  qed
  have m100: "(?y mod 100 = 0) = (c = 24 \<and> e = 3)"
  proof (cases "c = 24 \<and> e = 3")
    case True
    have "?y = 100 * (4 * a + b + 1)" using True by simp
    then show ?thesis using True by simp
  next
    case False
    have "4 * c + e + 1 < 100" using False assms by linarith
    then have "?y mod 100 = 4 * c + e + 1"
      using assms by (intro int_mod_pos_eq[where q = "4 * a + b"]) simp_all
    then show ?thesis using False assms by simp
  qed
  have m400: "(?y mod 400 = 0) = (b = 3 \<and> c = 24 \<and> e = 3)"
  proof (cases "b = 3 \<and> c = 24 \<and> e = 3")
    case True
    have "?y = 400 * (a + 1)" using True by simp
    then show ?thesis using True by simp
  next
    case False
    have "100 * b + 4 * c + e + 1 < 400" using False assms by linarith
    then have "?y mod 400 = 100 * b + 4 * c + e + 1"
      using assms by (intro int_mod_pos_eq[where q = a]) simp_all
    then show ?thesis using False assms by simp
  qed
  show ?thesis
    unfolding is_leap_def m4 m100 m400 by blast
qed

lemma month_part_ok_range:
  assumes "0 \<le> r" "r < 365"
  shows "month_part_ok leap r"
proof -
  have "nat r \<in> set [0..<365]" using assms by simp
  then have "month_part_ok True (int (nat r)) \<and> month_part_ok False (int (nat r))"
    using month_part_all unfolding list_all_iff by blast
  then show ?thesis using assms by (cases leap) simp_all
qed

lemma case_prod_if:
  "(case (if P then p else q) of (x, y) \<Rightarrow> f x y) =
   (if P then (case p of (x, y) \<Rightarrow> f x y) else (case q of (x, y) \<Rightarrow> f x y))"
  by simp

lemma ord2ymd_unfold:
  "ord2ymd n =
    (let m = n - 1;
         a = m div 146097; r1 = m mod 146097;
         b = r1 div 36524; r2 = r1 mod 36524;
         c = r2 div 1461; r3 = r2 mod 1461;
         e = r3 div 365; r4 = r3 mod 365;
         yr = a * 400 + 1 + b * 100 + c * 4 + e
     in if e = 4 \<or> b = 4 then \<lparr>year = yr - 1, month = 12, day = 31\<rparr>
        else (case month_part (e = 3 \<and> (c \<noteq> 24 \<or> b = 3)) r4 of
                (mo, dy) \<Rightarrow> \<lparr>year = yr, month = mo, day = dy\<rparr>))"
  unfolding ord2ymd_def month_part_def Let_def
  by (simp only: case_prod_if prod.case)


lemma ord2ymd_correct:
  assumes "1 \<le> n" "n \<le> MAXORDINAL"
  shows "valid_date (ord2ymd n) \<and> toordinal (ord2ymd n) = n"
proof -
  define m where "m = n - 1"
  define a where "a = m div 146097"
  define r1 where "r1 = m mod 146097"
  define b where "b = r1 div 36524"
  define r2 where "r2 = r1 mod 36524"
  define c where "c = r2 div 1461"
  define r3 where "r3 = r2 mod 1461"
  define e where "e = r3 div 365"
  define r4 where "r4 = r3 mod 365"
  have m: "0 \<le> m" "m \<le> 3652058"
    using assms by (simp_all add: m_def MAXORDINAL_def)
  have e1: "m = 146097 * a + r1" and b1: "0 \<le> r1" "r1 < 146097"
    by (simp_all add: a_def r1_def)
  have e2: "r1 = 36524 * b + r2" and b2: "0 \<le> r2" "r2 < 36524"
    by (simp_all add: b_def r2_def)
  have e3: "r2 = 1461 * c + r3" and b3: "0 \<le> r3" "r3 < 1461"
    by (simp_all add: c_def r3_def)
  have e4: "r3 = 365 * e + r4" and b4: "0 \<le> r4" "r4 < 365"
    by (simp_all add: e_def r4_def)
  have a: "0 \<le> a" "a \<le> 24" using m e1 b1 by linarith+
  have b: "0 \<le> b" "b \<le> 4" using e2 b1 b2 by linarith+
  have c: "0 \<le> c" "c \<le> 24" using e3 b2 b3 by linarith+
  have e: "0 \<le> e" "e \<le> 4" using e4 b3 b4 by linarith+
  have u: "ord2ymd n =
      (if e = 4 \<or> b = 4 then \<lparr>year = a * 400 + 1 + b * 100 + c * 4 + e - 1, month = 12, day = 31\<rparr>
       else (case month_part (e = 3 \<and> (c \<noteq> 24 \<or> b = 3)) r4 of
               (mo, dy) \<Rightarrow> \<lparr>year = a * 400 + 1 + b * 100 + c * 4 + e, month = mo, day = dy\<rparr>))"
    unfolding ord2ymd_unfold[of n] Let_def m_def a_def r1_def b_def r2_def c_def r3_def e_def r4_def
    by (rule refl)
  have dec31: "valid_date \<lparr>year = y, month = 12, day = 31\<rparr> \<and>
      toordinal \<lparr>year = y, month = 12, day = 31\<rparr> = days_before_year y + 366"
    if "1 \<le> y" "y \<le> 9999" "is_leap y" for y
    using that
    by (simp add: valid_date_def toordinal_def ymd2ord_def MINYEAR_def MAXYEAR_def
        days_in_month_def days_before_month_def DAYS_IN_MONTH_def DAYS_BEFORE_MONTH_def)
  show ?thesis
  proof (cases "b = 4")
    case True
    have "r2 = 0" using True e2 b1 b2 by linarith
    then have z: "c = 0" "e = 0" "r4 = 0" "r3 = 0"
      by (simp_all add: c_def r3_def e_def r4_def)
    have a23: "a \<le> 23" using m e1 e2 True b2 by linarith
    have y: "a * 400 + 1 + b * 100 + c * 4 + e - 1 = 400 * a + 100 * 3 + 4 * 24 + 3 + 1"
      using True z by simp
    have L: "is_leap (400 * a + 100 * 3 + 4 * 24 + 3 + 1)"
      using is_leap_decomposed[of a 3 24 3] a by simp
    have D: "days_before_year (400 * a + 100 * 3 + 4 * 24 + 3 + 1) = 146097 * a + 145731"
      using days_before_year_decomposed[of a 3 24 3] a by simp
    have R: "1 \<le> 400 * a + 100 * 3 + 4 * 24 + 3 + 1" "400 * a + 100 * 3 + 4 * 24 + 3 + 1 \<le> 9999"
      using a a23 by linarith+
    have "ord2ymd n = \<lparr>year = 400 * a + 100 * 3 + 4 * 24 + 3 + 1, month = 12, day = 31\<rparr>"
      unfolding u using True y by simp
    moreover have "n = 146097 * a + 145731 + 366"
      using e1 e2 True \<open>r2 = 0\<close> by (simp add: m_def)
    ultimately show ?thesis
      using dec31[OF R L] D by simp
  next
    case nb4: False
    then have b3': "b \<le> 3" using b by linarith
    show ?thesis
    proof (cases "e = 4")
      case True
      have r40: "r4 = 0" using True e4 b3 b4 by linarith
      have c23: "c \<le> 23" using True e3 e4 b2 b4 by linarith
      have y: "a * 400 + 1 + b * 100 + c * 4 + e - 1 = 400 * a + 100 * b + 4 * c + 3 + 1"
        using True by simp
      have L: "is_leap (400 * a + 100 * b + 4 * c + 3 + 1)"
        using is_leap_decomposed[of a b c 3] a b b3' c c23 by simp
      have D: "days_before_year (400 * a + 100 * b + 4 * c + 3 + 1) =
          146097 * a + 36524 * b + 1461 * c + 1095"
        using days_before_year_decomposed[of a b c 3] a b b3' c by simp
      have R: "1 \<le> 400 * a + 100 * b + 4 * c + 3 + 1" "400 * a + 100 * b + 4 * c + 3 + 1 \<le> 9999"
        using a b b3' c c23 by linarith+
      have "ord2ymd n = \<lparr>year = 400 * a + 100 * b + 4 * c + 3 + 1, month = 12, day = 31\<rparr>"
        unfolding u using True y by simp
      moreover have "n = 146097 * a + 36524 * b + 1461 * c + 1095 + 366"
        using e1 e2 e3 e4 True r40 by (simp add: m_def)
      ultimately show ?thesis
        using dec31[OF R L] D by simp
    next
      case e4': False
      then have e3': "e \<le> 3" using e by linarith
      let ?leap = "e = 3 \<and> (c \<noteq> 24 \<or> b = 3)"
      let ?y = "400 * a + 100 * b + 4 * c + e + 1"
      obtain mo dy where md: "month_part ?leap r4 = (mo, dy)"
        by (cases "month_part ?leap r4")
      have ok: "month_part_ok ?leap r4"
        using b4 by (intro month_part_ok_range) simp_all
      have P: "1 \<le> mo" "mo \<le> 12" "1 \<le> dy"
        "dy \<le> (if mo = 2 \<and> ?leap then 29 else DAYS_IN_MONTH ! nat mo)"
        "DAYS_BEFORE_MONTH ! nat mo + (if mo > 2 \<and> ?leap then 1 else 0) + dy = r4 + 1"
        using ok md by (simp_all add: month_part_ok_def)
      have L: "is_leap ?y = ?leap"
        using is_leap_decomposed[of a b c e] a b b3' c e e3' by simp
      have D: "days_before_year ?y = 146097 * a + 36524 * b + 1461 * c + 365 * e"
        using days_before_year_decomposed[of a b c e] a b b3' c e e3' by simp
      have top: "\<not> (a = 24 \<and> b = 3 \<and> c = 24 \<and> e = 3)"
        using m e1 e2 e3 e4 b4 by linarith
      have R: "1 \<le> ?y" "?y \<le> 9999"
        using a b b3' c e e3' top by linarith+
      have yr: "a * 400 + 1 + b * 100 + c * 4 + e = ?y" by simp
      have o: "ord2ymd n = \<lparr>year = ?y, month = mo, day = dy\<rparr>"
        unfolding u using nb4 e4' md yr by simp
      have v: "valid_date \<lparr>year = ?y, month = mo, day = dy\<rparr>"
        using R P L by (simp add: valid_date_def MINYEAR_def MAXYEAR_def days_in_month_def)
      have t: "toordinal \<lparr>year = ?y, month = mo, day = dy\<rparr> = n"
        using P(5) L D e1 e2 e3 e4
        by (simp add: toordinal_def ymd2ord_def days_before_month_def m_def)
      show ?thesis using o v t by simp
    qed
  qed
qed

lemma date_add_correct:
  assumes "date_add d days = Inr new"
  shows "valid_date new \<and> toordinal new = toordinal d + days"
proof -
  from assms have r: "0 < toordinal d + days" "toordinal d + days \<le> MAXORDINAL"
    and n: "new = ord2ymd (toordinal d + days)"
    by (auto simp: date_add_def Let_def split: if_splits)
  have "1 \<le> toordinal d + days" using r(1) by simp
  then show ?thesis
    using ord2ymd_correct[of "toordinal d + days"] r(2) n by simp
qed

lemma date_add_defined:
  assumes "\<bar>days\<bar> \<le> 999999999" "0 < toordinal d + days" "toordinal d + days \<le> MAXORDINAL"
  shows "date_add d days = Inr (ord2ymd (toordinal d + days))"
  using assms by (simp add: date_add_def Let_def)

lemma iso_dates_empty_db: "iso_dates empty_db"
  by (simp add: iso_dates_def empty_db_def)

lemma iso_dates_loans_eq: "loans d' = loans d \<Longrightarrow> iso_dates d \<Longrightarrow> iso_dates d'"
  by (simp add: iso_dates_def)

lemma iso_dates_mark_paid: "iso_dates d \<Longrightarrow> iso_dates (fst (mark_paid lid d))"
proof -
  have "(\<lambda>l. is_iso_date (due_date (if l_id l = lid then l\<lparr>status := Paid\<rparr> else l))) =
      (\<lambda>l. is_iso_date (due_date l))"
    by (auto simp: fun_eq_iff)
  then show "iso_dates d \<Longrightarrow> iso_dates (fst (mark_paid lid d))"
    by (simp add: iso_dates_def loans_mark_paid list.pred_map o_def)
qed

lemma iso_dates_create_loan:
  "iso_dates d \<Longrightarrow> valid_date due \<Longrightarrow>
   iso_dates (fst (create_loan cname cphone clang emi_amt due d))"
  by (simp add: iso_dates_def create_loan_def Let_def is_iso_date_isoformat)

lemma iso_dates_reschedule_loan:
  assumes "iso_dates d"
  shows "iso_dates (fst (reschedule_loan lid days d))"
proof (cases "sqlite_int lid \<and> filter (\<lambda>l. l_id l = lid) (loans d) \<noteq> []")
  case False
  then show ?thesis using assms by (auto simp: reschedule_loan_def)
next
  case True
  then have si: "sqlite_int lid" by simp
  from True obtain l ls where Cons: "filter (\<lambda>l. l_id l = lid) (loans d) = l # ls"
    by (cases "filter (\<lambda>l. l_id l = lid) (loans d)") auto
  show ?thesis
  proof (cases "fromisoformat (due_date l)")
    case (Inl x)
    then show ?thesis using assms Cons by (simp add: reschedule_loan_def)
  next
    case (Inr cur)
    show ?thesis
    proof (cases "date_add cur days")
      case (Inl x)
      then show ?thesis using assms Cons Inr by (simp add: reschedule_loan_def)
    next
      case new: (Inr new)
      have "valid_date new" using date_add_correct[OF new] by simp
      then have "is_iso_date (isoformat new)" by (rule is_iso_date_isoformat)
      have "is_iso_date (due_date (if l_id r = lid
          then r\<lparr>status := Rescheduled, due_date := isoformat new\<rparr> else r))"
        if "is_iso_date (due_date r)" for r
        using that \<open>is_iso_date (isoformat new)\<close> by simp
      then have "list_all (\<lambda>r. is_iso_date (due_date (if l_id r = lid
          then r\<lparr>status := Rescheduled, due_date := isoformat new\<rparr> else r))) (loans d)"
        using assms unfolding iso_dates_def list_all_iff by blast
      then show ?thesis
        by (simp add: reschedule_loan_found[OF Cons Inr new si] iso_dates_def loans_update_rescheduled
            list.pred_map o_def)
    qed
  qed
qed

lemma iso_dates_apply_operation:
  assumes "iso_dates d" "valid_operation op"
  shows "iso_dates (apply_operation e op d)"
proof (cases op)
  case (CreateLoan cname cphone clang emi_amt due)
  then show ?thesis using assms by (simp add: iso_dates_create_loan valid_operation_def)
next
  case (PlaceCall lid)
  then show ?thesis
    using assms(1) by (auto intro: iso_dates_loans_eq simp: place_call_default_def)
next
  case (SendPaymentLink lid)
  then show ?thesis using assms(1) by (auto intro: iso_dates_loans_eq)
next
  case (MarkPaid lid)
  then show ?thesis using assms by (simp add: iso_dates_mark_paid)
next
  case (RescheduleLoan lid)
  then show ?thesis
    using assms by (simp add: reschedule_loan_default_def iso_dates_reschedule_loan)
next
  case (CallOverdueCustomers today)
  then show ?thesis using assms(1) by (auto intro: iso_dates_loans_eq)
next
  case (CallPreDueCustomers today)
  then show ?thesis using assms(1) by (auto intro: iso_dates_loans_eq)
qed

lemma iso_dates_fold:
  "iso_dates d \<Longrightarrow> list_all valid_operation ops \<Longrightarrow>
   iso_dates (fold (apply_operation e) ops d)"
proof (induction ops arbitrary: d)
  case Nil
  then show ?case by simp
next
  case (Cons op ops)
  have "iso_dates (apply_operation e op d)"
    using Cons.prems by (intro iso_dates_apply_operation) simp_all
  then show ?case
    using Cons.IH Cons.prems(2) by simp
qed

lemma store_invariants_run:
  assumes "list_all valid_operation ops"
  shows "ids_ascending (fold (apply_operation e) ops empty_db) \<and>
         iso_dates (fold (apply_operation e) ops empty_db)"
  using iso_dates_fold[OF iso_dates_empty_db assms] ids_ascending_run by simp


section \<open>Refusals and further evaluations\<close>

lemma sqlite_int_bounds:
  "\<not> sqlite_int 9223372036854775808" "\<not> sqlite_int (- 9223372036854775809)"
  "sqlite_int 9223372036854775807" "sqlite_int (- 9223372036854775808)"
  by (simp_all add: sqlite_int_def)

lemma reschedule_loan_refused:
  "\<not> sqlite_int lid \<Longrightarrow> reschedule_loan lid days d = (d, Inl OverflowError)"
  by (simp add: reschedule_loan_def)

lemma send_payment_link_refused:
  "\<not> sqlite_int lid \<Longrightarrow> send_payment_link e lid d = (d, Inl OverflowError)"
  by (simp add: send_payment_link_def)

lemma reschedule_loan_absent:
  "sqlite_int lid \<Longrightarrow> lid \<notin> l_id ` set (loans d) \<Longrightarrow>
   reschedule_loan lid days d = (d, Inr [(''error'', ''Loan not found'')])"
  by (simp add: reschedule_loan_def filter_key_absent)

lemma date_add_out_of_calendar:
  "\<not> (0 < toordinal cur + days \<and> toordinal cur + days \<le> MAXORDINAL) \<Longrightarrow>
   date_add cur days = Inl OverflowError"
  by (auto simp: date_add_def Let_def)

lemma reschedule_loan_raises:
  assumes "filter (\<lambda>l. l_id l = lid) (loans d) = l # ls"
    and "fromisoformat (due_date l) = Inr cur"
    and "date_add cur days = Inl x"
    and "sqlite_int lid"
  shows "reschedule_loan lid days d = (d, Inl x)"
  using assms by (simp add: reschedule_loan_def)

lemma date_9999_12_28:
  "fromisoformat ''9999-12-28'' = Inr \<lparr>year = 9999, month = 12, day = 28\<rparr>"
  "toordinal \<lparr>year = 9999, month = 12, day = 28\<rparr> = 3652056"
  "MAXORDINAL = 3652059"
  "date_add \<lparr>year = 9999, month = 12, day = 28\<rparr> 7 = Inl OverflowError"
  "isoformat \<lparr>year = 9999, month = 12, day = 28\<rparr> = ''9999-12-28''"
  "valid_date \<lparr>year = 9999, month = 12, day = 28\<rparr>"
  by (simp_all add: date_eval valid_date_def)

lemma create_loan_db_late:
  "create_loan ''A'' ''+919999888777'' ''en'' 4000 \<lparr>year = 9999, month = 12, day = 28\<rparr> empty_db =
     (db_late, Inr 1)"
  by (simp add: create_loan_def empty_db_def db_late_def next_id_def Let_def date_9999_12_28)

lemma reschedule_db_late:
  "reschedule_loan 1 7 db_late = (db_late, Inl OverflowError)"
  by (simp add: reschedule_loan_def db_late_def date_9999_12_28)





section \<open>Marking a loan paid\<close>

text \<open>
  C10. \<^verbatim>\<open>mark_paid\<close> makes no existence check: for every loan id that the
  database can hold (a 64-bit signed integer, as every value of the
  \<^verbatim>\<open>INTEGER PRIMARY KEY\<close> column is), whether or not a loan has it, it returns
  \<^verbatim>\<open>{"status": "ok"}\<close> and appends one \<^verbatim>\<open>marked_paid\<close> event carrying that
  id. When no loan has the id, the loans table is left as it was, so the new
  event refers to no loan. An integer outside that range never reaches the
  database: the driver refuses to bind it to the \<^verbatim>\<open>UPDATE\<close>, the call raises
  \<^verbatim>\<open>OverflowError\<close> and nothing is written.
\<close>

theorem mark_paid_any_id:
  "(sqlite_int lid \<longrightarrow>
      snd (mark_paid lid d) = Inr [(''status'', ''ok'')] \<and>
      call_logs (fst (mark_paid lid d)) =
        call_logs d @ [\<lparr>e_id = next_id (map e_id (call_logs d)), loan_id = lid,
                        event = ''marked_paid'', detail = ''Webhook/Manual''\<rparr>] \<and>
      customers (fst (mark_paid lid d)) = customers d \<and>
      (lid \<notin> l_id ` set (loans d) \<longrightarrow>
         loans (fst (mark_paid lid d)) = loans d \<and>
         lid \<notin> l_id ` set (loans (fst (mark_paid lid d))))) \<and>
   (\<not> sqlite_int lid \<longrightarrow> mark_paid lid d = (d, Inl OverflowError))"
  by (simp add: mark_paid_def call_logs_insert_call_log update_status_paid_absent)

theorem mark_paid_any_id_witness:
  "sqlite_int 42 \<and> 42 \<notin> l_id ` set (loans empty_db) \<and>
   snd (mark_paid 42 empty_db) = Inr [(''status'', ''ok'')] \<and>
   call_logs (fst (mark_paid 42 empty_db)) =
     [\<lparr>e_id = 1, loan_id = 42, event = ''marked_paid'', detail = ''Webhook/Manual''\<rparr>] \<and>
   loans (fst (mark_paid 42 empty_db)) = [] \<and>
   \<not> sqlite_int 9223372036854775808 \<and>
   mark_paid 9223372036854775808 db_one_due = (db_one_due, Inl OverflowError)"
  using mark_paid_any_id [of 42 empty_db] mark_paid_any_id [of 9223372036854775808 db_one_due]
  by (simp add: empty_db_def next_id_def sqlite_int_bounds)

text \<open>
  C6. \<^verbatim>\<open>mark_paid\<close> is idempotent on the loans table: after the second call
  the loans table is what it was after the first, and the customers are
  untouched. For a loan id that the database can hold, as the id of every loan
  of the store is, neither call fails: both return \<^verbatim>\<open>{"status": "ok"}\<close>, every
  loan with the id has status \<^verbatim>\<open>paid\<close>, and the event log has grown by exactly
  two \<^verbatim>\<open>marked_paid\<close> events for the id.
\<close>

theorem mark_paid_twice:
  "loans (fst (mark_paid lid (fst (mark_paid lid d)))) = loans (fst (mark_paid lid d)) \<and>
   customers (fst (mark_paid lid (fst (mark_paid lid d)))) = customers d \<and>
   (sqlite_int lid \<longrightarrow>
      snd (mark_paid lid d) = Inr [(''status'', ''ok'')] \<and>
      snd (mark_paid lid (fst (mark_paid lid d))) = Inr [(''status'', ''ok'')] \<and>
      (\<forall>l \<in> set (loans (fst (mark_paid lid (fst (mark_paid lid d))))). l_id l = lid \<longrightarrow> status l = Paid) \<and>
      (\<exists>i j. call_logs (fst (mark_paid lid (fst (mark_paid lid d)))) =
         call_logs d @
           [\<lparr>e_id = i, loan_id = lid, event = ''marked_paid'', detail = ''Webhook/Manual''\<rparr>,
            \<lparr>e_id = j, loan_id = lid, event = ''marked_paid'', detail = ''Webhook/Manual''\<rparr>]))"
proof (intro conjI impI)
  let ?d1 = "fst (mark_paid lid d)"
  let ?d2 = "fst (mark_paid lid ?d1)"
  show "loans ?d2 = loans ?d1"
    by (simp add: mark_paid_def update_status_paid_def)
  show "customers ?d2 = customers d"
    by (simp add: mark_paid_def)
next
  let ?d1 = "fst (mark_paid lid d)"
  let ?d2 = "fst (mark_paid lid ?d1)"
  assume r: "sqlite_int lid"
  show "snd (mark_paid lid d) = Inr [(''status'', ''ok'')]"
    using r by (rule mark_paid_snd)
  show "snd (mark_paid lid ?d1) = Inr [(''status'', ''ok'')]"
    using r by (rule mark_paid_snd)
  have l1: "loans ?d1 = loans (update_status_paid lid d)"
    using r by (simp add: mark_paid_fst)
  have l2: "loans ?d2 = loans ?d1"
    using r by (simp add: mark_paid_fst update_status_paid_def)
  show "\<forall>l \<in> set (loans ?d2). l_id l = lid \<longrightarrow> status l = Paid"
    unfolding l2 l1 using update_status_paid_status by blast
  have "call_logs ?d2 = call_logs d @
        [\<lparr>e_id = next_id (map e_id (call_logs d)), loan_id = lid, event = ''marked_paid'',
          detail = ''Webhook/Manual''\<rparr>,
         \<lparr>e_id = next_id (map e_id (call_logs ?d1)), loan_id = lid, event = ''marked_paid'',
          detail = ''Webhook/Manual''\<rparr>]"
    using r by (simp add: mark_paid_fst call_logs_insert_call_log)
  then show "\<exists>i j. call_logs ?d2 = call_logs d @
        [\<lparr>e_id = i, loan_id = lid, event = ''marked_paid'', detail = ''Webhook/Manual''\<rparr>,
         \<lparr>e_id = j, loan_id = lid, event = ''marked_paid'', detail = ''Webhook/Manual''\<rparr>]"
    by blast
qed

theorem mark_paid_twice_witness:
  "sqlite_int 1 \<and>
   (\<exists>l \<in> set (loans (fst (mark_paid 1 (fst (mark_paid 1 db_one_due))))). l_id l = 1 \<and> status l = Paid) \<and>
   snd (mark_paid 1 db_one_due) = Inr [(''status'', ''ok'')] \<and>
   snd (mark_paid 1 (fst (mark_paid 1 db_one_due))) = Inr [(''status'', ''ok'')] \<and>
   map status (loans db_one_due) = [Due] \<and>
   map status (loans (fst (mark_paid 1 db_one_due))) = [Paid] \<and>
   map status (loans (fst (mark_paid 1 (fst (mark_paid 1 db_one_due))))) = [Paid] \<and>
   map event (call_logs (fst (mark_paid 1 (fst (mark_paid 1 db_one_due))))) = [''marked_paid'', ''marked_paid'']"
  using mark_paid_twice [of 1 db_one_due]
  by (simp add: db_one_due_paid_twice)
     (simp add: db_one_due_def mark_paid_def update_status_paid_def insert_call_log_def)

section \<open>Dispatching a reminder or a payment link\<close>

text \<open>
  C7. For a loan id that the database can hold and that no row of the loans
  table carries, \<^verbatim>\<open>place_call\<close> returns \<^verbatim>\<open>{"error": "Loan not found"}\<close> and
  leaves the whole store (loans, customers and event log) as it was: no event is
  appended. An integer that the database cannot hold is refused when the
  \<^verbatim>\<open>SELECT\<close> binds it: the call raises \<^verbatim>\<open>OverflowError\<close>, and the store is
  as it was in this case too.
\<close>

theorem place_call_not_found:
  "(sqlite_int lid \<and> lid \<notin> l_id ` set (loans d) \<longrightarrow>
      place_call e lid message_key d = (d, Inr [(''error'', ''Loan not found'')])) \<and>
   (\<not> sqlite_int lid \<longrightarrow> place_call e lid message_key d = (d, Inl OverflowError))"
  by (simp add: place_call_def select_loan_join_absent)

theorem place_call_not_found_witness:
  "sqlite_int 7 \<and> 7 \<notin> l_id ` set (loans db_one_due) \<and>
   place_call mock_env 7 ''reminder'' db_one_due = (db_one_due, Inr [(''error'', ''Loan not found'')]) \<and>
   \<not> sqlite_int 9223372036854775808 \<and>
   place_call mock_env 9223372036854775808 ''reminder'' db_one_due = (db_one_due, Inl OverflowError)"
  using place_call_not_found [of 7 db_one_due mock_env "''reminder''"]
    place_call_not_found [of 9223372036854775808 db_one_due mock_env "''reminder''"]
  by (simp add: db_one_due_def sqlite_int_bounds)

text \<open>
  C8. \<^verbatim>\<open>place_call\<close> and \<^verbatim>\<open>send_payment_link\<close> never change the loans
  table (so no status and no other loan field) nor the customers table, whatever
  the loan id, the channel and the outcome, an escaping exception included; the
  only change to the store is that events are appended to the log.
\<close>

theorem dispatch_reads_and_appends:
  "loans (fst (place_call e lid message_key d)) = loans d \<and>
   customers (fst (place_call e lid message_key d)) = customers d \<and>
   (\<exists>es. call_logs (fst (place_call e lid message_key d)) = call_logs d @ es) \<and>
   loans (fst (send_payment_link e lid d)) = loans d \<and>
   customers (fst (send_payment_link e lid d)) = customers d \<and>
   (\<exists>es. call_logs (fst (send_payment_link e lid d)) = call_logs d @ es)"
proof (intro conjI)
  show "loans (fst (place_call e lid message_key d)) = loans d"
    by (rule loans_place_call)
  show "customers (fst (place_call e lid message_key d)) = customers d"
    by (rule customers_place_call)
  show "\<exists>es. call_logs (fst (place_call e lid message_key d)) = call_logs d @ es"
    by (rule call_logs_place_call)
  show "loans (fst (send_payment_link e lid d)) = loans d"
    by (rule loans_send_payment_link)
  show "customers (fst (send_payment_link e lid d)) = customers d"
    by (rule customers_send_payment_link)
  show "\<exists>es. call_logs (fst (send_payment_link e lid d)) = call_logs d @ es"
    by (rule call_logs_send_payment_link)
qed

section \<open>Rescheduling\<close>

text \<open>
  C5, as the code has it. \<^verbatim>\<open>reschedule_loan\<close>, whose default extension is 7
  days: for an id that the database can hold and that no loan carries it returns
  \<^verbatim>\<open>{"error": "Loan not found"}\<close> and leaves the store alone. For an existing
  loan (ids are a primary key) whose stored due date reads as the date \<open>cur\<close>,
  the sum of \<open>cur\<close> and the extension is a date \<open>new\<close> whenever it lies in the
  calendar (ordinals 1 to \<open>MAXORDINAL\<close>, that is 0001-01-01 to 9999-12-31);
  \<open>new\<close> is the date that many days after \<open>cur\<close>. The call then sets the loan's
  due date to \<open>new\<close>, stored as ISO text that reads back as \<open>new\<close>, and its
  status to \<^verbatim>\<open>rescheduled\<close>, and appends exactly one \<^verbatim>\<open>rescheduled\<close> event
  whose detail is \<^verbatim>\<open>New due date: \<close> followed by the new date. Run twice on a
  loan due 2025-01-01 it gives 2025-01-08, then 2025-01-15. When the sum lies
  outside the calendar the call raises \<^verbatim>\<open>OverflowError\<close> and changes nothing:
  due date, status and event log are as they were. An id that the database
  cannot hold is refused with \<^verbatim>\<open>OverflowError\<close> when the \<^verbatim>\<open>SELECT\<close> binds
  it.
\<close>

theorem reschedule_loan_effect:
  "reschedule_loan_default lid d = reschedule_loan lid 7 d \<and>
   (sqlite_int lid \<and> lid \<notin> l_id ` set (loans d) \<longrightarrow>
      reschedule_loan lid days d = (d, Inr [(''error'', ''Loan not found'')])) \<and>
   (\<bar>days\<bar> \<le> 999999999 \<and> 0 < toordinal cur + days \<and> toordinal cur + days \<le> MAXORDINAL \<longrightarrow>
      (\<exists>new. date_add cur days = Inr new)) \<and>
   (sqlite_int lid \<and> distinct (map l_id (loans d)) \<and> l \<in> set (loans d) \<and> l_id l = lid \<and>
    fromisoformat (due_date l) = Inr cur \<and> date_add cur days = Inr new \<longrightarrow>
      valid_date new \<and> toordinal new = toordinal cur + days \<and>
      fromisoformat (isoformat new) = Inr new \<and>
      snd (reschedule_loan lid days d) =
        Inr [(''status'', ''rescheduled''), (''new_date'', isoformat new)] \<and>
      loans (fst (reschedule_loan lid days d)) =
        map (\<lambda>r. if l_id r = lid then r\<lparr>status := Rescheduled, due_date := isoformat new\<rparr> else r)
          (loans d) \<and>
      customers (fst (reschedule_loan lid days d)) = customers d \<and>
      call_logs (fst (reschedule_loan lid days d)) =
        call_logs d @
          [\<lparr>e_id = next_id (map e_id (call_logs d)), loan_id = lid, event = ''rescheduled'',
            detail = ''New due date: '' @ isoformat new\<rparr>]) \<and>
   (sqlite_int lid \<and> distinct (map l_id (loans d)) \<and> l \<in> set (loans d) \<and> l_id l = lid \<and>
    fromisoformat (due_date l) = Inr cur \<and>
    \<not> (0 < toordinal cur + days \<and> toordinal cur + days \<le> MAXORDINAL) \<longrightarrow>
      reschedule_loan lid days d = (d, Inl OverflowError)) \<and>
   (\<not> sqlite_int lid \<longrightarrow> reschedule_loan lid days d = (d, Inl OverflowError))"
proof (intro conjI impI)
  show "reschedule_loan_default lid d = reschedule_loan lid 7 d"
    by (simp add: reschedule_loan_default_def)
next
  assume "sqlite_int lid \<and> lid \<notin> l_id ` set (loans d)"
  then show "reschedule_loan lid days d = (d, Inr [(''error'', ''Loan not found'')])"
    by (simp add: reschedule_loan_absent)
next
  assume "\<bar>days\<bar> \<le> 999999999 \<and> 0 < toordinal cur + days \<and> toordinal cur + days \<le> MAXORDINAL"
  then have "date_add cur days = Inr (ord2ymd (toordinal cur + days))"
    by (intro date_add_defined) simp_all
  then show "\<exists>new. date_add cur days = Inr new"
    by blast
next
  assume h: "sqlite_int lid \<and> distinct (map l_id (loans d)) \<and> l \<in> set (loans d) \<and> l_id l = lid \<and>
    fromisoformat (due_date l) = Inr cur \<and> date_add cur days = Inr new"
  then have "filter (\<lambda>r. l_id r = l_id l) (loans d) = [l]"
    using filter_key_distinct[of l_id "loans d" l] by simp
  then have f: "filter (\<lambda>r. l_id r = lid) (loans d) = [l]"
    using h by simp
  have si: "sqlite_int lid"
    using h by simp
  note r = reschedule_loan_found[OF f _ _ si, of cur days new]
  have da: "valid_date new \<and> toordinal new = toordinal cur + days"
    using h by (intro date_add_correct) simp
  show "valid_date new"
    using da by simp
  show "toordinal new = toordinal cur + days"
    using da by simp
  show "fromisoformat (isoformat new) = Inr new"
    using da by (intro fromisoformat_isoformat) simp
  show "snd (reschedule_loan lid days d) =
        Inr [(''status'', ''rescheduled''), (''new_date'', isoformat new)]"
    using r h by simp
  show "loans (fst (reschedule_loan lid days d)) =
        map (\<lambda>r. if l_id r = lid then r\<lparr>status := Rescheduled, due_date := isoformat new\<rparr> else r)
          (loans d)"
    using r h by (simp add: loans_update_rescheduled)
  show "customers (fst (reschedule_loan lid days d)) = customers d"
    using r h by simp
  show "call_logs (fst (reschedule_loan lid days d)) =
        call_logs d @
          [\<lparr>e_id = next_id (map e_id (call_logs d)), loan_id = lid, event = ''rescheduled'',
            detail = ''New due date: '' @ isoformat new\<rparr>]"
    using r h by (simp add: call_logs_insert_call_log)
next
  assume h: "sqlite_int lid \<and> distinct (map l_id (loans d)) \<and> l \<in> set (loans d) \<and> l_id l = lid \<and>
    fromisoformat (due_date l) = Inr cur \<and>
    \<not> (0 < toordinal cur + days \<and> toordinal cur + days \<le> MAXORDINAL)"
  then have "filter (\<lambda>r. l_id r = l_id l) (loans d) = [l]"
    using filter_key_distinct[of l_id "loans d" l] by simp
  then have f: "filter (\<lambda>r. l_id r = lid) (loans d) = [l]"
    using h by simp
  have p: "fromisoformat (due_date l) = Inr cur"
    using h by simp
  have a: "date_add cur days = Inl OverflowError"
    using h by (intro date_add_out_of_calendar) simp
  have si: "sqlite_int lid"
    using h by simp
  show "reschedule_loan lid days d = (d, Inl OverflowError)"
    using f p a si by (rule reschedule_loan_raises)
next
  assume "\<not> sqlite_int lid"
  then show "reschedule_loan lid days d = (d, Inl OverflowError)"
    by (rule reschedule_loan_refused)
qed

theorem reschedule_loan_effect_witness:
  "sqlite_int 7 \<and> 7 \<notin> l_id ` set (loans db_one_due) \<and>
   reschedule_loan 7 7 db_one_due = (db_one_due, Inr [(''error'', ''Loan not found'')]) \<and>
   sqlite_int 1 \<and> distinct (map l_id (loans db_one_due)) \<and>
   map due_date (loans db_one_due) = [''2025-01-01''] \<and>
   fromisoformat ''2025-01-01'' = Inr \<lparr>year = 2025, month = 1, day = 1\<rparr> \<and>
   date_add \<lparr>year = 2025, month = 1, day = 1\<rparr> 7 = Inr \<lparr>year = 2025, month = 1, day = 8\<rparr> \<and>
   toordinal \<lparr>year = 2025, month = 1, day = 8\<rparr> = toordinal \<lparr>year = 2025, month = 1, day = 1\<rparr> + 7 \<and>
   map due_date (loans (fst (reschedule_loan_default 1 db_one_due))) = [''2025-01-08''] \<and>
   map status (loans (fst (reschedule_loan_default 1 db_one_due))) = [Rescheduled] \<and>
   call_logs (fst (reschedule_loan_default 1 db_one_due)) =
     [\<lparr>e_id = 1, loan_id = 1, event = ''rescheduled'', detail = ''New due date: 2025-01-08''\<rparr>] \<and>
   map due_date (loans (fst (reschedule_loan_default 1 (fst (reschedule_loan_default 1 db_one_due))))) =
     [''2025-01-15''] \<and>
   map due_date (loans db_late) = [''9999-12-28''] \<and>
   fromisoformat ''9999-12-28'' = Inr \<lparr>year = 9999, month = 12, day = 28\<rparr> \<and>
   \<not> toordinal \<lparr>year = 9999, month = 12, day = 28\<rparr> + 7 \<le> MAXORDINAL \<and>
   reschedule_loan 1 7 db_late = (db_late, Inl OverflowError) \<and>
   \<not> sqlite_int 9223372036854775808 \<and>
   reschedule_loan 9223372036854775808 7 db_one_due = (db_one_due, Inl OverflowError)"
proof -
  let ?l = "\<lparr>l_id = 1, customer_id = 1, emi_amount = 4000, due_date = ''2025-01-01'', status = Due\<rparr>"
  let ?cur = "\<lparr>year = 2025, month = 1, day = 1\<rparr>"
  let ?new = "\<lparr>year = 2025, month = 1, day = 8\<rparr>"
  let ?late = "\<lparr>l_id = 1, customer_id = 1, emi_amount = 4000, due_date = ''9999-12-28'', status = Due\<rparr>"
  let ?end = "\<lparr>year = 9999, month = 12, day = 28\<rparr>"
  note T = reschedule_loan_effect [where lid = 1 and d = db_one_due and days = 7 and l = ?l
      and cur = ?cur and new = ?new]
  have absent: "sqlite_int 7 \<and> 7 \<notin> l_id ` set (loans db_one_due)"
    by (simp add: db_one_due_def)
  have nf: "reschedule_loan 7 7 db_one_due = (db_one_due, Inr [(''error'', ''Loan not found'')])"
    using reschedule_loan_effect [where lid = 7 and d = db_one_due and days = 7 and l = ?l
        and cur = ?cur and new = ?new, THEN conjunct2, THEN conjunct1]
      absent by (rule mp)
  have h: "sqlite_int 1 \<and> distinct (map l_id (loans db_one_due)) \<and> ?l \<in> set (loans db_one_due) \<and>
      l_id ?l = 1 \<and> fromisoformat (due_date ?l) = Inr ?cur \<and> date_add ?cur 7 = Inr ?new"
    by (simp add: db_one_due_def date_2025_01_01)
  note eff = mp [OF T [THEN conjunct2, THEN conjunct2, THEN conjunct2, THEN conjunct1] h,
      THEN conjunct2, THEN conjunct2, THEN conjunct2]
  have ord: "toordinal ?new = toordinal ?cur + 7"
    using mp [OF T [THEN conjunct2, THEN conjunct2, THEN conjunct2, THEN conjunct1] h,
        THEN conjunct2, THEN conjunct1] .
  have dflt: "reschedule_loan_default 1 db_one_due = reschedule_loan 1 7 db_one_due"
    by (rule T [THEN conjunct1])
  have l1: "loans (fst (reschedule_loan 1 7 db_one_due)) =
      [\<lparr>l_id = 1, customer_id = 1, emi_amount = 4000, due_date = ''2025-01-08'', status = Rescheduled\<rparr>]"
    using eff [THEN conjunct2, THEN conjunct1]
    by (simp add: db_one_due_def date_2025_01_01)
  have e1: "call_logs (fst (reschedule_loan 1 7 db_one_due)) =
      [\<lparr>e_id = 1, loan_id = 1, event = ''rescheduled'', detail = ''New due date: 2025-01-08''\<rparr>]"
    using eff [THEN conjunct2, THEN conjunct2, THEN conjunct2]
    by (simp add: db_one_due_def date_2025_01_01 next_id_def)
  have l2: "map due_date (loans (fst (reschedule_loan 1 7 (fst (reschedule_loan 1 7 db_one_due))))) =
      [''2025-01-15'']"
    by (simp add: reschedule_twice_db_one_due)
  have d0: "distinct (map l_id (loans db_one_due))" "map due_date (loans db_one_due) = [''2025-01-01'']"
    by (simp_all add: db_one_due_def)
  have out: "\<not> toordinal ?end + 7 \<le> MAXORDINAL"
    by (simp add: date_9999_12_28)
  have hl: "sqlite_int 1 \<and> distinct (map l_id (loans db_late)) \<and> ?late \<in> set (loans db_late) \<and>
      l_id ?late = 1 \<and> fromisoformat (due_date ?late) = Inr ?end \<and>
      \<not> (0 < toordinal ?end + 7 \<and> toordinal ?end + 7 \<le> MAXORDINAL)"
    using out by (simp add: db_late_def date_9999_12_28(1))
  have late: "reschedule_loan 1 7 db_late = (db_late, Inl OverflowError)"
    using reschedule_loan_effect [where lid = 1 and d = db_late and days = 7 and l = ?late
        and cur = ?end and new = ?end, THEN conjunct2, THEN conjunct2, THEN conjunct2,
        THEN conjunct2, THEN conjunct1]
      hl by (rule mp)
  have dl: "map due_date (loans db_late) = [''9999-12-28'']"
    by (simp add: db_late_def)
  have big: "\<not> sqlite_int 9223372036854775808"
    by (rule sqlite_int_bounds)
  have ref: "reschedule_loan 9223372036854775808 7 db_one_due = (db_one_due, Inl OverflowError)"
    using reschedule_loan_effect [where lid = 9223372036854775808 and d = db_one_due and days = 7
        and l = ?l and cur = ?cur and new = ?new, THEN conjunct2, THEN conjunct2, THEN conjunct2,
        THEN conjunct2, THEN conjunct2]
      big by (rule mp)
  have c1: "sqlite_int 7 \<and> 7 \<notin> l_id ` set (loans db_one_due) \<and>
      reschedule_loan 7 7 db_one_due = (db_one_due, Inr [(''error'', ''Loan not found'')])"
    using absent nf by simp
  have c2: "sqlite_int 1 \<and> distinct (map l_id (loans db_one_due)) \<and>
      map due_date (loans db_one_due) = [''2025-01-01''] \<and>
      fromisoformat ''2025-01-01'' = Inr ?cur \<and> date_add ?cur 7 = Inr ?new \<and>
      toordinal ?new = toordinal ?cur + 7"
    using d0 ord date_2025_01_01(1,2) by simp
  have c3: "map due_date (loans (fst (reschedule_loan_default 1 db_one_due))) = [''2025-01-08''] \<and>
      map status (loans (fst (reschedule_loan_default 1 db_one_due))) = [Rescheduled] \<and>
      call_logs (fst (reschedule_loan_default 1 db_one_due)) =
        [\<lparr>e_id = 1, loan_id = 1, event = ''rescheduled'', detail = ''New due date: 2025-01-08''\<rparr>] \<and>
      map due_date (loans (fst (reschedule_loan_default 1 (fst (reschedule_loan_default 1 db_one_due))))) =
        [''2025-01-15'']"
    unfolding dflt reschedule_loan_default_def l1 e1 using l2 by simp
  have c4: "map due_date (loans db_late) = [''9999-12-28''] \<and>
      fromisoformat ''9999-12-28'' = Inr ?end \<and>
      \<not> toordinal ?end + 7 \<le> MAXORDINAL \<and>
      reschedule_loan 1 7 db_late = (db_late, Inl OverflowError) \<and>
      \<not> sqlite_int 9223372036854775808 \<and>
      reschedule_loan 9223372036854775808 7 db_one_due = (db_one_due, Inl OverflowError)"
    using dl date_9999_12_28(1) out late big ref by blast
  show ?thesis
    using c1 c2 c3 c4 by blast
qed

text \<open>
  The claim as stated (for every existing loan the due date moves by the
  extension and the status becomes \<^verbatim>\<open>rescheduled\<close>) fails at the end of the
  calendar: the loan created with due date 9999-12-28 exists, and rescheduling
  it by the default 7 days raises \<^verbatim>\<open>OverflowError\<close> and leaves due date,
  status and event log as they were.
\<close>

theorem reschedule_beyond_calendar_raises:
  "create_loan ''A'' ''+919999888777'' ''en'' 4000 \<lparr>year = 9999, month = 12, day = 28\<rparr> empty_db =
     (db_late, Inr 1) \<and>
   map l_id (loans db_late) = [1] \<and>
   map due_date (loans db_late) = [''9999-12-28''] \<and>
   map status (loans db_late) = [Due] \<and>
   reschedule_loan_default 1 db_late = (db_late, Inl OverflowError) \<and>
   map due_date (loans (fst (reschedule_loan_default 1 db_late))) = [''9999-12-28''] \<and>
   map status (loans (fst (reschedule_loan_default 1 db_late))) = [Due] \<and>
   call_logs (fst (reschedule_loan_default 1 db_late)) = []"
  by (simp add: create_loan_db_late reschedule_loan_default_def reschedule_db_late)
     (simp add: db_late_def)

section \<open>Status transitions\<close>




section \<open>Selecting loans for the bulk calls\<close>

text \<open>
  C3. The overdue query. On every store that the dashboard's actions build from
  the empty one, and more generally whenever the tables are in id order
  (\<open>ids_ascending\<close>, which also makes ids unique), the ids come out in ascending
  order, and a loan of the store is selected exactly when its status is
  \<^verbatim>\<open>due\<close> and its stored due date is at most the as-of text; so no
  \<^verbatim>\<open>paid\<close> or \<^verbatim>\<open>rescheduled\<close> loan is selected. The comparison is one of
  texts: when every stored due date is an ISO date text and the as-of text is the
  ISO text of the date \<open>as_of\<close>, it is the comparison of the dates themselves.
\<close>

theorem select_overdue_exact:
  "sorted_wrt (<) (select_overdue as_of_text (fold (apply_operation e) ops empty_db)) \<and>
   (ids_ascending d \<longrightarrow> sorted_wrt (<) (select_overdue as_of_text d)) \<and>
   (ids_ascending d \<and> l \<in> set (loans d) \<longrightarrow>
      (l_id l \<in> set (select_overdue as_of_text d)) = (status l = Due \<and> due_date l \<le> as_of_text)) \<and>
   (ids_ascending d \<and> iso_dates d \<and> valid_date as_of \<and> l \<in> set (loans d) \<longrightarrow>
      (l_id l \<in> set (select_overdue (isoformat as_of) d)) =
        (status l = Due \<and> (\<exists>dt. fromisoformat (due_date l) = Inr dt \<and> date_le dt as_of)))"
proof (intro conjI impI)
  have "sorted_wrt (<) (map l_id (loans (fold (apply_operation e) ops empty_db)))"
    using ids_ascending_run[of e ops] by (simp add: ids_ascending_def)
  then show "sorted_wrt (<) (select_overdue as_of_text (fold (apply_operation e) ops empty_db))"
    unfolding select_overdue_def by (rule sorted_wrt_map_filter)
next
  assume "ids_ascending d"
  then have "sorted_wrt (<) (map l_id (loans d))" by (simp add: ids_ascending_def)
  then show "sorted_wrt (<) (select_overdue as_of_text d)"
    unfolding select_overdue_def by (rule sorted_wrt_map_filter)
next
  assume h: "ids_ascending d \<and> l \<in> set (loans d)"
  then have "distinct (map l_id (loans d))" by (simp add: ids_ascending_distinct)
  then show "(l_id l \<in> set (select_overdue as_of_text d)) = (status l = Due \<and> due_date l \<le> as_of_text)"
    unfolding select_overdue_def
    using h mem_map_filter_distinct[of l_id "loans d" l
        "\<lambda>l. due_date l \<le> as_of_text \<and> status l = Due"]
    by blast
next
  assume h: "ids_ascending d \<and> iso_dates d \<and> valid_date as_of \<and> l \<in> set (loans d)"
  then have dist: "distinct (map l_id (loans d))" by (simp add: ids_ascending_distinct)
  from h have iso: "is_iso_date (due_date l)" using iso_datesD by blast
  have "(l_id l \<in> set (select_overdue (isoformat as_of) d)) =
      (due_date l \<le> isoformat as_of \<and> status l = Due)"
    unfolding select_overdue_def
    using h dist mem_map_filter_distinct[of l_id "loans d" l
        "\<lambda>l. due_date l \<le> isoformat as_of \<and> status l = Due"]
    by blast
  also have "\<dots> = (status l = Due \<and> (\<exists>dt. fromisoformat (due_date l) = Inr dt \<and> date_le dt as_of))"
    using due_text_le_iff[OF iso, of as_of] h by blast
  finally show "(l_id l \<in> set (select_overdue (isoformat as_of) d)) =
        (status l = Due \<and> (\<exists>dt. fromisoformat (due_date l) = Inr dt \<and> date_le dt as_of))" .
qed

theorem select_overdue_exact_witness:
  "ids_ascending db_five \<and> iso_dates db_five \<and> valid_date jan_1 \<and>
   loans db_five ! 4 \<in> set (loans db_five) \<and> status (loans db_five ! 4) = Due \<and>
   fromisoformat (due_date (loans db_five ! 4)) = Inr \<lparr>year = 2024, month = 12, day = 30\<rparr> \<and>
   date_le \<lparr>year = 2024, month = 12, day = 30\<rparr> jan_1 \<and>
   l_id (loans db_five ! 4) \<in> set (select_overdue (isoformat jan_1) db_five) \<and>
   sorted_wrt (<) (select_overdue (isoformat jan_1) db_five) \<and>
   select_overdue (isoformat jan_1) db_five = [1, 5] \<and>
   map status (loans db_five) = [Due, Due, Paid, Rescheduled, Due]"
proof -
  let ?l = "loans db_five ! 4"
  have l: "?l = \<lparr>l_id = 5, customer_id = 2, emi_amount = 3000, due_date = ''2024-12-30'', status = Due\<rparr>"
    by (simp add: db_five_def)
  have mem: "?l \<in> set (loans db_five)"
    by (simp add: db_five_def)
  have p: "fromisoformat (due_date ?l) = Inr \<lparr>year = 2024, month = 12, day = 30\<rparr>"
    unfolding l by (simp add: date_eval)
  have le: "date_le \<lparr>year = 2024, month = 12, day = 30\<rparr> jan_1"
    by (simp add: date_le_def jan_1_def)
  have st: "status ?l = Due"
    unfolding l by simp
  note T = select_overdue_exact [where d = db_five and as_of_text = "isoformat jan_1" and l = ?l
      and as_of = jan_1 and e = mock_env and ops = "[]", THEN conjunct2]
  have srt: "sorted_wrt (<) (select_overdue (isoformat jan_1) db_five)"
    using mp [OF T [THEN conjunct1] db_five_facts(1)] .
  have h: "ids_ascending db_five \<and> iso_dates db_five \<and> valid_date jan_1 \<and> ?l \<in> set (loans db_five)"
    using db_five_facts mem by simp
  have sel: "l_id ?l \<in> set (select_overdue (isoformat jan_1) db_five)"
    using mp [OF T [THEN conjunct2, THEN conjunct2] h] st p le by blast
  have sts: "map status (loans db_five) = [Due, Due, Paid, Rescheduled, Due]"
    by (simp add: db_five_def)
  show ?thesis
    using db_five_facts mem st p le sel srt sts db_five_selections by simp
qed

text \<open>
  C4. The pre-due query, which the button runs with the ISO text of the date
  three days after today. With unique ids, a loan of the store is selected exactly when its
  status is \<^verbatim>\<open>due\<close> and its stored due date equals the target text; when the
  stored due dates are ISO date texts, exactly when its due date is the target
  date itself. It is an equality, not a range: a \<^verbatim>\<open>due\<close> loan with any other
  due date, earlier ones included, is not selected.
\<close>

theorem select_pre_due_exact:
  "(date_add today 3 = Inr target \<longrightarrow>
      valid_date target \<and> toordinal target = toordinal today + 3 \<and>
      call_pre_due_customers e today d =
        (if select_pre_due (isoformat target) d = []
         then (d, Inr (st_warning ''No customers with EMIs due in 3 days.''))
         else bulk_call e ''pre_due_reminder'' ''pre-due'' (select_pre_due (isoformat target) d) d)) \<and>
   (distinct (map l_id (loans d)) \<and> l \<in> set (loans d) \<longrightarrow>
      (l_id l \<in> set (select_pre_due t d)) = (status l = Due \<and> due_date l = t)) \<and>
   (distinct (map l_id (loans d)) \<and> iso_dates d \<and> valid_date target \<and> l \<in> set (loans d) \<longrightarrow>
      (l_id l \<in> set (select_pre_due (isoformat target) d)) =
        (status l = Due \<and> fromisoformat (due_date l) = Inr target))"
proof (intro conjI impI)
  assume t: "date_add today 3 = Inr target"
  show "valid_date target"
    using date_add_correct[OF t] by simp
  show "toordinal target = toordinal today + 3"
    using date_add_correct[OF t] by simp
  from t show "call_pre_due_customers e today d =
        (if select_pre_due (isoformat target) d = []
         then (d, Inr (st_warning ''No customers with EMIs due in 3 days.''))
         else bulk_call e ''pre_due_reminder'' ''pre-due'' (select_pre_due (isoformat target) d) d)"
    by (simp add: call_pre_due_customers_def Let_def)
next
  assume "distinct (map l_id (loans d)) \<and> l \<in> set (loans d)"
  then show "(l_id l \<in> set (select_pre_due t d)) = (status l = Due \<and> due_date l = t)"
    unfolding select_pre_due_def
    using mem_map_filter_distinct[of l_id "loans d" l "\<lambda>l. due_date l = t \<and> status l = Due"]
    by blast
next
  assume h: "distinct (map l_id (loans d)) \<and> iso_dates d \<and> valid_date target \<and> l \<in> set (loans d)"
  then have iso: "is_iso_date (due_date l)" using iso_datesD by blast
  have "(l_id l \<in> set (select_pre_due (isoformat target) d)) =
      (due_date l = isoformat target \<and> status l = Due)"
    unfolding select_pre_due_def
    using h mem_map_filter_distinct[of l_id "loans d" l
        "\<lambda>l. due_date l = isoformat target \<and> status l = Due"]
    by blast
  also have "\<dots> = (status l = Due \<and> fromisoformat (due_date l) = Inr target)"
    using due_text_eq_iff[OF iso, of target] h by blast
  finally show "(l_id l \<in> set (select_pre_due (isoformat target) d)) =
        (status l = Due \<and> fromisoformat (due_date l) = Inr target)" .
qed

theorem select_pre_due_exact_witness:
  "date_add jan_1 3 = Inr jan_4 \<and> distinct (map l_id (loans db_five)) \<and> iso_dates db_five \<and>
   valid_date jan_4 \<and> loans db_five ! 1 \<in> set (loans db_five) \<and>
   status (loans db_five ! 1) = Due \<and> fromisoformat (due_date (loans db_five ! 1)) = Inr jan_4 \<and>
   l_id (loans db_five ! 1) \<in> set (select_pre_due (isoformat jan_4) db_five) \<and>
   select_pre_due (isoformat jan_4) db_five = [2] \<and>
   call_pre_due_customers mock_env jan_1 db_five =
     bulk_call mock_env ''pre_due_reminder'' ''pre-due'' [2] db_five"
proof -
  let ?l = "loans db_five ! 1"
  have l: "?l = \<lparr>l_id = 2, customer_id = 1, emi_amount = 1500, due_date = ''2025-01-04'', status = Due\<rparr>"
    by (simp add: db_five_def)
  have mem: "?l \<in> set (loans db_five)"
    by (simp add: db_five_def)
  have p: "fromisoformat (due_date ?l) = Inr jan_4"
    unfolding l by (simp add: jan_4_def date_eval)
  have st: "status ?l = Due"
    unfolding l by simp
  note T = select_pre_due_exact [of jan_1 jan_4 mock_env db_five ?l "isoformat jan_4"]
  have h: "distinct (map l_id (loans db_five)) \<and> iso_dates db_five \<and> valid_date jan_4 \<and>
      ?l \<in> set (loans db_five)"
    using db_five_facts mem by simp
  have sel: "l_id ?l \<in> set (select_pre_due (isoformat jan_4) db_five)"
    using mp [OF T [THEN conjunct2, THEN conjunct2] h] st p by simp
  have handler: "call_pre_due_customers mock_env jan_1 db_five =
     bulk_call mock_env ''pre_due_reminder'' ''pre-due'' [2] db_five"
    using mp [OF T [THEN conjunct1] db_five_facts(8), THEN conjunct2, THEN conjunct2]
    by (simp add: db_five_facts db_five_selections)
  show ?thesis
    using db_five_facts mem st p sel handler db_five_selections by simp
qed

section \<open>Template fallback\<close>




section \<open>Bulk calling\<close>

text \<open>
  C2, as the code has it. The bulk buttons run \<^verbatim>\<open>place_call\<close> on the selected
  ids strictly in list order, one at a time: the loop over \<open>xs @ ys\<close> is the loop
  over \<open>xs\<close> followed, unless it raised, by the loop over \<open>ys\<close> on the store it
  left. A loan that is not found does not stop the loop (\<^verbatim>\<open>place_call\<close> returns
  its error dictionary, which the loop drops). There is no exception handler: an
  exception escaping one \<^verbatim>\<open>place_call\<close> ends the batch there, with the loans
  after it not called. When the loop completes the result is the message
  \<^verbatim>\<open>Finished calling all N ... customers.\<close> with \<open>N\<close> the number of ids in the
  batch; no count of successes and no list of failed ids is made.
\<close>

theorem bulk_call_behaviour:
  "call_overdue_customers e today d =
     (if select_overdue (isoformat today) d = []
      then (d, Inr (st_warning ''No overdue loans to call.''))
      else bulk_call e ''reminder'' ''overdue'' (select_overdue (isoformat today) d) d) \<and>
   call_loop e key (xs @ ys) d =
     (case call_loop e key xs d of
        (d', Inl x) \<Rightarrow> (d', Inl x)
      | (d', Inr u) \<Rightarrow> call_loop e key ys d') \<and>
   call_loop e key [i] d =
     (case place_call e i key d of
        (d', Inl x) \<Rightarrow> (d', Inl x)
      | (d', Inr r) \<Rightarrow> (d', Inr ())) \<and>
   (sqlite_int i \<and> i \<notin> l_id ` set (loans d) \<longrightarrow>
      call_loop e key (i # ids) d = call_loop e key ids d) \<and>
   (snd (place_call e i key d) = Inl x \<longrightarrow>
      bulk_call e key what (i # ids) d = (fst (place_call e i key d), Inl x)) \<and>
   (snd (call_loop e key ids d) = Inr () \<longrightarrow>
      bulk_call e key what ids d =
        (fst (call_loop e key ids d),
         Inr (st_success (''Finished calling all '' @ str_int (int (length ids)) @ '' '' @ what @
                          '' customers.'')))) \<and>
   (snd (place_call e i key d) = Inr [(''error'', ''Loan not found'')] \<longrightarrow>
      call_loop e key (i # ids) d = call_loop e key ids d)"
proof (intro conjI impI)
  show "call_overdue_customers e today d =
     (if select_overdue (isoformat today) d = []
      then (d, Inr (st_warning ''No overdue loans to call.''))
      else bulk_call e ''reminder'' ''overdue'' (select_overdue (isoformat today) d) d)"
    by (simp add: call_overdue_customers_def Let_def)
  show "call_loop e key (xs @ ys) d =
     (case call_loop e key xs d of
        (d', Inl x) \<Rightarrow> (d', Inl x)
      | (d', Inr u) \<Rightarrow> call_loop e key ys d')"
    by (rule call_loop_append)
  show "call_loop e key [i] d =
     (case place_call e i key d of
        (d', Inl x) \<Rightarrow> (d', Inl x)
      | (d', Inr r) \<Rightarrow> (d', Inr ()))"
    by (simp split: prod.split sum.split)
next
  assume "sqlite_int i \<and> i \<notin> l_id ` set (loans d)"
  then show "call_loop e key (i # ids) d = call_loop e key ids d"
    by (simp add: place_call_absent)
next
  assume a: "snd (place_call e i key d) = Inl x"
  have "call_loop e key (i # ids) d = (fst (place_call e i key d), Inl x)"
    using a by (rule call_loop_raise)
  then show "bulk_call e key what (i # ids) d = (fst (place_call e i key d), Inl x)"
    using bulk_call_raise[of e key "i # ids" d x what] by simp
next
  assume "snd (call_loop e key ids d) = Inr ()"
  then show "bulk_call e key what ids d =
        (fst (call_loop e key ids d),
         Inr (st_success (''Finished calling all '' @ str_int (int (length ids)) @ '' '' @ what @
                          '' customers.'')))"
    by (rule bulk_call_completes)
next
  assume "snd (place_call e i key d) = Inr [(''error'', ''Loan not found'')]"
  then show "call_loop e key (i # ids) d = call_loop e key ids d"
    by (rule call_loop_not_found)
qed

theorem bulk_call_behaviour_witness:
  "create_loan ''A'' ''+919999888777'' ''en'' 4000 jan_1 empty_db = (db_one_due, Inr 1) \<and>
   select_overdue (isoformat jan_1) db_one_due = [1] \<and>
   snd (call_loop mock_env ''reminder'' [1] db_one_due) = Inr () \<and>
   snd (call_overdue_customers mock_env jan_1 db_one_due) =
     Inr (st_success ''Finished calling all 1 overdue customers.'') \<and>
   map event (call_logs (fst (call_overdue_customers mock_env jan_1 db_one_due))) =
     [''call_initiated'', ''mock_call''] \<and>
   map status (loans (fst (call_overdue_customers mock_env jan_1 db_one_due))) = [Due] \<and>
   sqlite_int 99 \<and> 99 \<notin> l_id ` set (loans db_one_due) \<and>
   call_loop mock_env ''reminder'' [99, 1] db_one_due = call_loop mock_env ''reminder'' [1] db_one_due \<and>
   snd (place_call flaky_env 1 ''reminder'' db_five) = Inl (ChannelError ''unreachable'') \<and>
   snd (bulk_call flaky_env ''reminder'' ''overdue'' [1, 5] db_five) = Inl (ChannelError ''unreachable'')"
proof -
  note T = bulk_call_behaviour [of mock_env jan_1 db_one_due "''reminder''" "[]" "[1]" 99 "[1]"
      "ChannelError []" "''overdue''"]
  note U = bulk_call_behaviour [of flaky_env jan_1 db_five "''reminder''" "[]" "[]" 1 "[5]"
      "ChannelError ''unreachable''" "''overdue''"]
  note V = bulk_call_behaviour [of mock_env jan_1 db_one_due "''reminder''" "[]" "[]" 1 "[1]"
      "ChannelError []" "''overdue''"]
  have s: "select_overdue (isoformat jan_1) db_one_due = [1]"
    by (simp add: db_five_facts select_overdue_def db_one_due_def)
  have lp: "snd (call_loop mock_env ''reminder'' [1] db_one_due) = Inr ()"
    by (simp add: place_call_db_one_due)
  have fin: "bulk_call mock_env ''reminder'' ''overdue'' [1] db_one_due =
      (fst (call_loop mock_env ''reminder'' [1] db_one_due),
       Inr (st_success (''Finished calling all '' @ str_int (int (length [1::int])) @ '' '' @
                        ''overdue'' @ '' customers.'')))"
    using mp [OF V [THEN conjunct2, THEN conjunct2, THEN conjunct2, THEN conjunct2, THEN conjunct2,
          THEN conjunct1] lp] .
  have h: "call_overdue_customers mock_env jan_1 db_one_due =
      bulk_call mock_env ''reminder'' ''overdue'' [1] db_one_due"
    using V [THEN conjunct1] by (simp add: s)
  have msg: "snd (call_overdue_customers mock_env jan_1 db_one_due) =
     Inr (st_success ''Finished calling all 1 overdue customers.'')"
    unfolding h fin by (simp add: str_int_def str_nat.simps dig_def)
  have ev: "map event (call_logs (fst (call_overdue_customers mock_env jan_1 db_one_due))) =
     [''call_initiated'', ''mock_call'']"
    unfolding h fin by (simp add: place_call_db_one_due)
  have st: "map status (loans (fst (call_overdue_customers mock_env jan_1 db_one_due))) = [Due]"
    unfolding h fin by (simp add: place_call_db_one_due) (simp add: db_one_due_def)
  have ab: "sqlite_int 99 \<and> 99 \<notin> l_id ` set (loans db_one_due)"
    by (simp add: db_one_due_def)
  have skip: "call_loop mock_env ''reminder'' [99, 1] db_one_due =
      call_loop mock_env ''reminder'' [1] db_one_due"
    using mp [OF T [THEN conjunct2, THEN conjunct2, THEN conjunct2, THEN conjunct1] ab] .
  have ex: "snd (place_call flaky_env 1 ''reminder'' db_five) = Inl (ChannelError ''unreachable'')"
    by (simp add: place_call_flaky_1)
  have abort: "snd (bulk_call flaky_env ''reminder'' ''overdue'' [1, 5] db_five) =
      Inl (ChannelError ''unreachable'')"
    using mp [OF U [THEN conjunct2, THEN conjunct2, THEN conjunct2, THEN conjunct2, THEN conjunct1] ex]
    by simp
  show ?thesis
    using create_loan_empty_db s lp msg ev st ab skip ex abort by simp
qed

text \<open>
  The claim as stated fails twice. On the live channel that refuses customer 1,
  the overdue batch \<open>[1, 5]\<close> ends with the exception at loan 1: loan 5, whose
  call would have been placed, is never called. And a batch of the one unknown id
  99 ends with \<^verbatim>\<open>Finished calling all 1 overdue customers.\<close>, although its only
  dispatch returned \<^verbatim>\<open>Loan not found\<close>.
\<close>

theorem bulk_call_aborts_and_reports_no_failures:
  "select_overdue (isoformat jan_1) db_five = [1, 5] \<and>
   snd (place_call flaky_env 5 ''reminder'' db_five) =
     Inr [(''status'', ''twilio_call_placed''), (''sid'', ''CA1'')] \<and>
   snd (call_overdue_customers flaky_env jan_1 db_five) = Inl (ChannelError ''unreachable'') \<and>
   call_logs (fst (call_overdue_customers flaky_env jan_1 db_five)) =
     [\<lparr>e_id = 1, loan_id = 1, event = ''call_initiated'', detail = ''to +919999888777''\<rparr>] \<and>
   place_call mock_env 99 ''reminder'' empty_db = (empty_db, Inr [(''error'', ''Loan not found'')]) \<and>
   bulk_call mock_env ''reminder'' ''overdue'' [99] empty_db =
     (empty_db, Inr (st_success ''Finished calling all 1 overdue customers.''))"
proof -
  have s: "select_overdue (isoformat jan_1) db_five = [1, 5]"
    by (simp add: db_five_facts db_five_selections)
  have a: "call_overdue_customers flaky_env jan_1 db_five =
     (db_five\<lparr>call_logs :=
        [\<lparr>e_id = 1, loan_id = 1, event = ''call_initiated'', detail = ''to +919999888777''\<rparr>]\<rparr>,
      Inl (ChannelError ''unreachable''))"
    by (simp add: call_overdue_customers_def s bulk_call_def place_call_flaky_1)
  have n: "place_call mock_env 99 ''reminder'' empty_db = (empty_db, Inr [(''error'', ''Loan not found'')])"
    by (simp add: place_call_def select_loan_join_def empty_db_def)
  have b: "bulk_call mock_env ''reminder'' ''overdue'' [99] empty_db =
     (empty_db, Inr (st_success ''Finished calling all 1 overdue customers.''))"
    by (simp add: bulk_call_def n str_int_def str_nat.simps dig_def)
  show ?thesis
    using s place_call_flaky_5 n b unfolding a by simp
qed

end
